theory Spec2Isabelle
  imports Main "HOL-Library.Word" "HOL-Library.Signed_Division"
begin

section \<open>Library types and functions that main.go calls\<close>

text \<open>
  The tool is one Go function, \<open>main\<close> of tools/bootstrap_commitlogs/main/main.go.
  Go's \<open>int\<close> and \<open>int64\<close> are 64-bit two's complement integers (a 64-bit platform),
  read with \<open>sint\<close>; \<open>uint32\<close> is a 32-bit word read with \<open>unat\<close>. Arithmetic on words
  wraps around, as Go's does.
\<close>

type_synonym int64 = "64 word"
type_synonym uint32 = "32 word"

subsection \<open>Package time\<close>

text \<open>
  \<open>time.Duration\<close> is an \<open>int64\<close> count of nanoseconds. A \<open>time.Time\<close> without a
  monotonic clock reading, which is what \<open>time.Unix\<close> returns, holds the seconds since
  January 1 of year 1, 00:00:00 UTC, as an \<open>int64\<close>, and the nanoseconds within the second,
  from 0 to 999999999. The functions below follow the code of Go's \<open>time\<close> package:
  the seconds are computed in \<open>int64\<close>, so \<open>time.Unix\<close> wraps around, and \<open>addSec\<close>
  stops at the largest and at the smallest second but one when the sum overflows (older
  releases of Go let that sum wrap around too). Go's \<open>/\<close> and \<open>%\<close> round towards zero:
  they are \<open>sdiv\<close> and \<open>smod\<close>.
\<close>

type_synonym Duration = "64 word"

record Time =
  sec :: int64
  nsec :: int

definition Second :: int where
  "Second = 1000000000"

definition Minute :: int where
  "Minute = 60 * Second"

definition unixToInternal :: int64 where
  "unixToInternal = 62135596800"

text \<open>\<open>time.Unix(sec, 0)\<close>.\<close>

definition Unix :: "int64 \<Rightarrow> Time" where
  "Unix s = \<lparr>sec = s + unixToInternal, nsec = 0\<rparr>"

text \<open>\<open>t.addSec(d)\<close> and \<open>t.Add(d)\<close>.\<close>

definition addSec :: "Time \<Rightarrow> int64 \<Rightarrow> Time" where
  "addSec t d =
     (let sum = sec t + d in
      if (sec t <s sum) = (0 <s d) then t\<lparr>sec := sum\<rparr>
      else if 0 <s d then t\<lparr>sec := 9223372036854775807\<rparr>
      else t\<lparr>sec := - 9223372036854775807\<rparr>)"

definition Add :: "Time \<Rightarrow> Duration \<Rightarrow> Time" where
  "Add t d =
     (let dsec = word_of_int (sint d sdiv Second) :: int64;
          n = nsec t + sint d smod Second
      in if Second \<le> n then addSec (t\<lparr>nsec := n - Second\<rparr>) (dsec + 1)
         else if n < 0 then addSec (t\<lparr>nsec := n + Second\<rparr>) (dsec - 1)
         else addSec (t\<lparr>nsec := n\<rparr>) dsec)"

text \<open>
  The remainder that \<open>div(t, d)\<close> returns, for \<open>d > 0\<close>. \<open>div\<close> works on the absolute
  value of the time: \<open>div_switch\<close> is its \<open>switch\<close>, on the seconds and nanoseconds of
  that absolute value. In the general case Go computes the remainder of the 128-bit
  number \<open>sec * 10^9 + nsec\<close>, with \<open>sec\<close> read as an \<open>uint64\<close>, by long division;
  here this is \<open>mod\<close>.
\<close>

definition div_switch :: "int64 \<Rightarrow> int \<Rightarrow> Duration \<Rightarrow> Duration" where
  "div_switch sec1 nsec1 d =
     (if sint d < Second \<and> Second smod (sint d + sint d) = 0
      then word_of_int (nsec1 smod sint d)
      else if sint d smod Second = 0
      then word_of_int (sint sec1 smod (sint d sdiv Second)) * word_of_int Second
             + word_of_int nsec1
      else word_of_int ((uint sec1 * Second + nsec1) mod sint d))"

definition div_rem :: "Time \<Rightarrow> Duration \<Rightarrow> Duration" where
  "div_rem t d =
     (let neg = (sec t <s 0);
          borrow = (neg \<and> - nsec t < 0);
          sec1 = (if neg then (if borrow then - sec t - 1 else - sec t) else sec t);
          nsec1 = (if neg then (if borrow then - nsec t + Second else - nsec t) else nsec t);
          r = div_switch sec1 nsec1 d
      in if neg \<and> r \<noteq> 0 then d - r else r)"

text \<open>\<open>t.Truncate(d)\<close>: the time itself when \<open>d <= 0\<close>, else \<open>t.Add(-r)\<close>.\<close>

definition Truncate :: "Time \<Rightarrow> Duration \<Rightarrow> Time" where
  "Truncate t d = (if sint d \<le> 0 then t else Add t (- div_rem t d))"

text \<open>\<open>t.Before(u)\<close>, the order of two times.\<close>

definition Before :: "Time \<Rightarrow> Time \<Rightarrow> bool" where
  "Before t u = (sec t <s sec u \<or> sec t = sec u \<and> nsec t < nsec u)"

text \<open>The instant that a time stands for, in nanoseconds since the zero time.\<close>

definition instant :: "Time \<Rightarrow> int" where
  "instant t = sint (sec t) * Second + nsec t"

subsection \<open>Package xtime (m3x): ranges of time\<close>

text \<open>\<open>xtime.Range{Start: s, End: e}\<close>, the half-open interval from \<open>s\<close> to \<open>e\<close>.\<close>

record xtime_Range =
  Start :: Time
  End :: Time

text \<open>
  Modelled from the spec: \<open>xtime.Ranges\<close>, \<open>xtime.NewRanges\<close> and \<open>AddRange\<close> belong to
  the m3x library and are not among the sources. The spec's data model has a shard mapped
  to a set of time ranges, and has the planner map a shard to "the single TimeRange":
  a collection is kept as the list of the ranges added to it, \<open>NewRanges\<close> is the empty
  collection and \<open>AddRange\<close> adds one range.
\<close>

type_synonym Ranges = "xtime_Range list"

definition NewRanges :: Ranges where
  "NewRanges = []"

definition AddRange :: "Ranges \<Rightarrow> xtime_Range \<Rightarrow> Ranges" where
  "AddRange rs r = rs @ [r]"

text \<open>\<open>result.ShardTimeRanges\<close> is a Go map from \<open>uint32\<close> shard ids to \<open>xtime.Ranges\<close>.\<close>

type_synonym ShardTimeRanges = "uint32 \<rightharpoonup> Ranges"

subsection \<open>Package strings\<close>

text \<open>
  A Go string is a sequence of bytes, here a \<open>char list\<close>. \<open>strings.TrimSpace\<close> removes
  the leading and trailing white space "as defined by Unicode": the code points
  U+0009 to U+000D, U+0020, U+0085, U+00A0, U+1680, U+2000 to U+200A, U+2028, U+2029,
  U+202F, U+205F and U+3000. \<open>spaceRunes\<close> lists their UTF-8 encodings; no encoding is
  a prefix or a suffix of another.
\<close>

definition spaceRunes :: "string list" where
  "spaceRunes =
    [[CHR 0x09], [CHR 0x0A], [CHR 0x0B], [CHR 0x0C], [CHR 0x0D], [CHR 0x20],
     [CHR 0xC2, CHR 0x85], [CHR 0xC2, CHR 0xA0],
     [CHR 0xE1, CHR 0x9A, CHR 0x80],
     [CHR 0xE2, CHR 0x80, CHR 0x80], [CHR 0xE2, CHR 0x80, CHR 0x81],
     [CHR 0xE2, CHR 0x80, CHR 0x82], [CHR 0xE2, CHR 0x80, CHR 0x83],
     [CHR 0xE2, CHR 0x80, CHR 0x84], [CHR 0xE2, CHR 0x80, CHR 0x85],
     [CHR 0xE2, CHR 0x80, CHR 0x86], [CHR 0xE2, CHR 0x80, CHR 0x87],
     [CHR 0xE2, CHR 0x80, CHR 0x88], [CHR 0xE2, CHR 0x80, CHR 0x89],
     [CHR 0xE2, CHR 0x80, CHR 0x8A],
     [CHR 0xE2, CHR 0x80, CHR 0xA8], [CHR 0xE2, CHR 0x80, CHR 0xA9],
     [CHR 0xE2, CHR 0x80, CHR 0xAF],
     [CHR 0xE2, CHR 0x81, CHR 0x9F],
     [CHR 0xE3, CHR 0x80, CHR 0x80]]"

text \<open>The number of bytes of the white-space rune that \<open>s\<close> starts (ends) with, or 0.\<close>

definition leadingSpace :: "string \<Rightarrow> nat" where
  "leadingSpace s =
     (case find (\<lambda>p. take (length p) s = p) spaceRunes of
        None \<Rightarrow> 0
      | Some p \<Rightarrow> length p)"

definition trailingSpace :: "string \<Rightarrow> nat" where
  "trailingSpace s =
     (case find (\<lambda>p. length p \<le> length s \<and> drop (length s - length p) s = p) spaceRunes of
        None \<Rightarrow> 0
      | Some p \<Rightarrow> length p)"

function TrimLeftSpace :: "string \<Rightarrow> string" where
  "TrimLeftSpace s =
     (if leadingSpace s = 0 then s else TrimLeftSpace (drop (leadingSpace s) s))"
  by pat_completeness auto
termination
proof (relation "measure length")
  fix s :: string
  assume "leadingSpace s \<noteq> 0"
  moreover have "leadingSpace [] = 0"
    by (simp add: leadingSpace_def spaceRunes_def)
  ultimately have "s \<noteq> []" by auto
  with \<open>leadingSpace s \<noteq> 0\<close> show "(drop (leadingSpace s) s, s) \<in> measure length"
    by simp
qed simp

function TrimRightSpace :: "string \<Rightarrow> string" where
  "TrimRightSpace s =
     (if trailingSpace s = 0 then s else TrimRightSpace (take (length s - trailingSpace s) s))"
  by pat_completeness auto
termination
proof (relation "measure length")
  fix s :: string
  assume "trailingSpace s \<noteq> 0"
  moreover have "trailingSpace [] = 0"
    by (simp add: trailingSpace_def spaceRunes_def)
  ultimately have "s \<noteq> []" by auto
  with \<open>trailingSpace s \<noteq> 0\<close> show "(take (length s - trailingSpace s) s, s) \<in> measure length"
    by simp
qed simp

declare TrimLeftSpace.simps [simp del] TrimRightSpace.simps [simp del]

definition TrimSpace :: "string \<Rightarrow> string" where
  "TrimSpace s = TrimRightSpace (TrimLeftSpace s)"

text \<open>
  \<open>strings.Split(s, sep)\<close> for a separator of one byte, as main.go calls it with
  \<open>","\<close>: the substrings between the separators, one more than there are separators.
\<close>

fun Split :: "string \<Rightarrow> char \<Rightarrow> string list" where
  "Split [] sep = [[]]"
| "Split (c # s) sep =
     (if c = sep then [] # Split s sep
      else (c # hd (Split s sep)) # tl (Split s sep))"

subsection \<open>Package strconv\<close>

text \<open>
  \<open>strconv.Atoi\<close> reads a decimal integer: an optional sign \<open>+\<close> or \<open>-\<close>, then one
  digit or more, nothing else; the value has to fit Go's \<open>int\<close>. \<open>None\<close> is a non-nil
  error (a syntax error or a value out of range).
\<close>

definition isDigit :: "char \<Rightarrow> bool" where
  "isDigit c = (48 \<le> (of_char c :: int) \<and> (of_char c :: int) \<le> 57)"

definition decimal :: "string \<Rightarrow> int" where
  "decimal ds = foldl (\<lambda>n c. 10 * n + (of_char c - 48)) 0 ds"

definition Atoi :: "string \<Rightarrow> int64 option" where
  "Atoi s =
     (let neg = (s \<noteq> [] \<and> hd s = CHR ''-'');
          ds = (if s \<noteq> [] \<and> (hd s = CHR ''+'' \<or> hd s = CHR ''-'') then tl s else s);
          n = decimal ds
      in if ds = [] \<or> \<not> list_all isDigit ds then None
         else if neg then (if n \<le> 2 ^ 63 then Some (word_of_int (- n)) else None)
         else (if n < 2 ^ 63 then Some (word_of_int n) else None))"

section \<open>The bootstrap window (main.go, lines 79 to 83)\<close>

definition startInclusive :: "int64 \<Rightarrow> Duration \<Rightarrow> Time" where
  "startInclusive currentUnixTimestamp blockSize =
     Add (Truncate (Unix currentUnixTimestamp) blockSize) (- blockSize)"

definition endExclusive :: "int64 \<Rightarrow> Duration \<Rightarrow> Time" where
  "endExclusive currentUnixTimestamp blockSize =
     Add (Truncate (Unix currentUnixTimestamp) blockSize) (blockSize * 2)"

text \<open>
  The spec's words for the truncation, "truncated down to the nearest multiple of
  blockSize": the greatest multiple of \<open>b\<close> that is not after \<open>t\<close>. The multiples of \<open>b\<close>
  and of \<open>- b\<close> are the same instants.
\<close>

definition truncate_down :: "int \<Rightarrow> int \<Rightarrow> int" where
  "truncate_down t b = t - t mod \<bar>b\<bar>"

section \<open>The command line\<close>

text \<open>The flags of main.go (lines 33 to 43), after \<open>flag.Parse\<close>.\<close>

record flags =
  pathPrefix :: string
  namespaceStr :: string
  blockSize :: Duration
  flushSize :: int64
  bootstrapRetention :: Duration
  shardsCount :: int64
  shards :: string
  debugListenAddress :: string
  currentUnixTimestamp :: int64

text \<open>
  The ways the process stops early. \<open>UsageExit\<close> is \<open>flag.Usage()\<close> followed by
  \<open>os.Exit(1)\<close>. \<open>FatalExit\<close> is a call of \<open>log.Fatalf\<close> or \<open>log.Fatal\<close>, with what it
  logs. Modelled from the spec: the logger (m3x/log) is not among the sources; in the spec
  the fatal log ends the process at once, and the exit status is 1.
\<close>

datatype fatal =
    InvalidShardList string
  | CouldNotParseShard string
  | ErrorMessage string
  | FailedToBootstrap string

datatype exit = UsageExit | FatalExit fatal

section \<open>The planner (main.go, lines 77 to 114)\<close>

text \<open>
  The loop over the tokens of the shard list (lines 90 to 102). The state is the map
  \<open>shardTimeRanges\<close> and the slice \<open>shardsAll\<close>; a fatal log ends the process, so the
  state is gone then. \<open>uint32(value)\<close> keeps the low 32 bits of \<open>value\<close>.
\<close>

fun shardListLoop ::
  "string \<Rightarrow> xtime_Range \<Rightarrow> string list \<Rightarrow> ShardTimeRanges \<times> uint32 list \<Rightarrow>
   exit + ShardTimeRanges \<times> uint32 list" where
  "shardListLoop shardsStr rng [] st = Inr st"
| "shardListLoop shardsStr rng (tok # toks) st =
     (let shard = TrimSpace tok in
      if shard = [] then Inl (FatalExit (InvalidShardList shardsStr))
      else case Atoi shard of
             None \<Rightarrow> Inl (FatalExit (CouldNotParseShard shard))
           | Some v \<Rightarrow>
               shardListLoop shardsStr rng toks
                 ((fst st)(ucast v \<mapsto> AddRange NewRanges rng), snd st @ [ucast v]))"

text \<open>The loop over the shard ids below \<open>uint32(shardsCount)\<close> (lines 105 to 109).\<close>

function shardCountLoop ::
  "uint32 \<Rightarrow> uint32 \<Rightarrow> xtime_Range \<Rightarrow> ShardTimeRanges \<times> uint32 list \<Rightarrow>
   ShardTimeRanges \<times> uint32 list" where
  "shardCountLoop i n rng st =
     (if i < n
      then shardCountLoop (i + 1) n rng ((fst st)(i \<mapsto> AddRange NewRanges rng), snd st @ [i])
      else st)"
  by pat_completeness auto
termination
proof (relation "measure (\<lambda>(i, n, rng, st). unat n - unat i)")
  fix i n :: uint32 and rng :: xtime_Range and st :: "ShardTimeRanges \<times> uint32 list"
  assume "i < n"
  then have "unat i < unat n" by (simp add: word_less_nat_alt)
  moreover have "unat i + 1 < 2 ^ 32"
    using \<open>unat i < unat n\<close> unsigned_less [of n, where ?'a = nat] by simp
  then have "unat (i + 1) = unat i + 1"
    by (simp add: unat_word_ariths)
  ultimately show "((i + 1, n, rng, (fst st)(i \<mapsto> AddRange NewRanges rng), snd st @ [i]),
      (i, n, rng, st)) \<in> measure (\<lambda>(i, n, rng, st). unat n - unat i)"
    by simp
qed simp

declare shardCountLoop.simps [simp del]

definition window :: "flags \<Rightarrow> xtime_Range" where
  "window cfg =
     \<lparr>Start = startInclusive (currentUnixTimestamp cfg) (blockSize cfg),
      End = endExclusive (currentUnixTimestamp cfg) (blockSize cfg)\<rparr>"

definition planner :: "flags \<Rightarrow> exit + ShardTimeRanges \<times> uint32 list" where
  "planner cfg =
     (if TrimSpace (shards cfg) \<noteq> []
      then shardListLoop (shards cfg) (window cfg) (Split (shards cfg) CHR '','') (Map.empty, [])
      else if 0 <s shardsCount cfg
      then Inr (shardCountLoop 0 (ucast (shardsCount cfg)) (window cfg) (Map.empty, []))
      else Inl UsageExit)"

section \<open>The whole run (main.go, lines 45 to 234)\<close>

text \<open>
  What the run does is kept as the list of its events, in order, with the exit status
  (0 when \<open>main\<close> returns). The calls into the bootstrap pipeline can fail; whether they
  do is not decided by main.go, so their results are parameters of the model:
  \<open>None\<close> is a nil error, \<open>Some e\<close> the error with message \<open>e\<close>. The Boolean that
  \<open>Bootstrap\<close> receives is the "incremental" setting of its run options. The value that a
  successful \<open>Bootstrap\<close> returns is only logged, and is left out, as are the log lines
  of the report. The assembly of pools and options (lines 122 to 199) has no branch and
  cannot fail. The debug server (lines 67 to 75) runs concurrently and is left out.
\<close>

record environment =
  NewCommitLogBootstrapper :: "flags \<Rightarrow> string option"
  NewMetadata :: "flags \<Rightarrow> string option"
  Bootstrap :: "string \<Rightarrow> ShardTimeRanges \<Rightarrow> bool \<Rightarrow> string option"

datatype event =
    FlagUsage
  | LogInfo string
  | LogConfigured "uint32 list"
  | LogFatal fatal
  | CallBootstrap string ShardTimeRanges bool

text \<open>Lines 116 to 233: the pipeline is built and run on the planner's map.\<close>

definition invoke ::
  "environment \<Rightarrow> flags \<Rightarrow> ShardTimeRanges \<Rightarrow> uint32 list \<Rightarrow> event list \<times> nat" where
  "invoke env cfg shardTimeRanges shardsAll =
     (let logged = [LogConfigured shardsAll, LogInfo ''bootstrapping''];
          call = CallBootstrap (namespaceStr cfg) shardTimeRanges False
      in case NewCommitLogBootstrapper env cfg of
           Some err \<Rightarrow> (logged @ [LogFatal (ErrorMessage err)], 1)
         | None \<Rightarrow>
             (case NewMetadata env cfg of
                Some err \<Rightarrow> (logged @ [LogFatal (ErrorMessage err)], 1)
              | None \<Rightarrow>
                  (case Bootstrap env (namespaceStr cfg) shardTimeRanges False of
                     Some err \<Rightarrow> (logged @ [call, LogFatal (FailedToBootstrap err)], 1)
                   | None \<Rightarrow> (logged @ [call, LogInfo ''bootstrapped''], 0))))"

definition main :: "environment \<Rightarrow> flags \<Rightarrow> event list \<times> nat" where
  "main env cfg =
     (if pathPrefix cfg = [] \<or> namespaceStr cfg = [] then ([FlagUsage], 1)
      else case planner cfg of
             Inl UsageExit \<Rightarrow>
               ([LogInfo ''Either the shards or shards-count argument need to be valid'',
                 FlagUsage], 1)
           | Inl (FatalExit f) \<Rightarrow> ([LogFatal f], 1)
           | Inr (shardTimeRanges, shardsAll) \<Rightarrow> invoke env cfg shardTimeRanges shardsAll)"

text \<open>The calls of \<open>Bootstrap\<close> in a run, with their arguments.\<close>

fun bootstrapCalls :: "event list \<Rightarrow> (string \<times> ShardTimeRanges \<times> bool) list" where
  "bootstrapCalls [] = []"
| "bootstrapCalls (CallBootstrap ns m inc # es) = (ns, m, inc) # bootstrapCalls es"
| "bootstrapCalls (e # es) = bootstrapCalls es"

text \<open>
  The flags' default values (lines 34 to 42), at the current time \<open>now\<close>, and an
  environment in which every call into the pipeline succeeds.
\<close>

definition defaults :: "int64 \<Rightarrow> flags" where
  "defaults now =
     \<lparr>pathPrefix = ''/var/lib/m3db'', namespaceStr = ''metrics'',
      blockSize = 600000000000, flushSize = 524288,
      bootstrapRetention = 172800000000000, shardsCount = 8192, shards = [],
      debugListenAddress = [], currentUnixTimestamp = now\<rparr>"

definition succeeding :: environment where
  "succeeding =
     \<lparr>NewCommitLogBootstrapper = (\<lambda>cfg. None), NewMetadata = (\<lambda>cfg. None),
      Bootstrap = (\<lambda>ns m inc. None)\<rparr>"

section \<open>Notions for stating the claims\<close>

text \<open>
  A token of the shard list stops the run when nothing is left of it after trimming, or
  when \<open>strconv.Atoi\<close> returns an error for what is left. \<open>fatalOf\<close> is the fatal log of
  such a token, \<open>shardOf\<close> the shard id of any other token.
\<close>

definition badToken :: "string \<Rightarrow> bool" where
  "badToken tok = (TrimSpace tok = [] \<or> Atoi (TrimSpace tok) = None)"

definition shardOf :: "string \<Rightarrow> uint32" where
  "shardOf tok = ucast (the (Atoi (TrimSpace tok)))"

definition fatalOf :: "string \<Rightarrow> string \<Rightarrow> fatal" where
  "fatalOf shardsStr tok =
     (if TrimSpace tok = [] then InvalidShardList shardsStr
      else CouldNotParseShard (TrimSpace tok))"

text \<open>
  The spec's words for a token, "a non-negative integer": one decimal digit or more and
  nothing else.
\<close>

definition nonNegativeInteger :: "string \<Rightarrow> bool" where
  "nonNegativeInteger tok = (tok \<noteq> [] \<and> list_all isDigit tok)"

text \<open>
  The reference time is \<open>now\<close> of line 79. In the spec's words the window starts at the
  reference time "truncated down to the nearest multiple of blockSize", minus the block
  size, and ends at that multiple plus twice the block size. An instant is
  \<open>representable\<close> when a \<open>time.Time\<close> can hold it: its second is an \<open>int64\<close>.
\<close>

definition referenceTime :: "flags \<Rightarrow> Time" where
  "referenceTime cfg = Unix (currentUnixTimestamp cfg)"

definition spec_truncated :: "flags \<Rightarrow> int" where
  "spec_truncated cfg = truncate_down (instant (referenceTime cfg)) (sint (blockSize cfg))"

definition spec_start :: "flags \<Rightarrow> int" where
  "spec_start cfg = spec_truncated cfg - sint (blockSize cfg)"

definition spec_end :: "flags \<Rightarrow> int" where
  "spec_end cfg = spec_truncated cfg + 2 * sint (blockSize cfg)"

definition representable :: "int \<Rightarrow> bool" where
  "representable x = (- (2 ^ 63) * Second \<le> x \<and> x < 2 ^ 63 * Second)"

section \<open>Facts about the library functions\<close>

lemma truncate_down_greatest_multiple:
  "b \<noteq> 0 \<Longrightarrow>
   b dvd truncate_down t b \<and> truncate_down t b \<le> t \<and> t < truncate_down t b + \<bar>b\<bar>"
proof -
  assume "b \<noteq> 0"
  have "b dvd t - t mod \<bar>b\<bar>"
    by (metis abs_dvd_iff dvd_minus_mod)
  with \<open>b \<noteq> 0\<close> show ?thesis
    by (simp add: truncate_down_def)
qed

text \<open>Negating and doubling a duration, where the result does not wrap around.\<close>

lemma sint_minus_Duration:
  fixes d :: Duration
  assumes "- (2 ^ 63) < sint d"
  shows "sint (- d) = - sint d"
proof -
  have "sint d < 2 ^ 63" using sint_lt [of d] by simp
  with assms show ?thesis
    by (simp add: sint_word_ariths signed_take_bit_int_eq_self)
qed

lemma sint_double_Duration:
  fixes d :: Duration
  assumes "- (2 ^ 62) \<le> sint d" and "sint d < 2 ^ 62"
  shows "sint (d * 2) = 2 * sint d"
  using assms by (simp add: sint_word_ariths signed_take_bit_int_eq_self)

text \<open>\<open>Add\<close>, \<open>div\<close>, \<open>Truncate\<close> and \<open>Before\<close> on the instants, where nothing overflows.\<close>

lemma sint_sum_no_overflow:
  fixes a b :: int64
  assumes "- (2 ^ 63) \<le> sint a + sint b" and "sint a + sint b < 2 ^ 63"
  shows "sint (a + b) = sint a + sint b"
  using assms by (simp add: sint_word_ariths signed_take_bit_int_eq_self)

lemma sint_of_int_int64:
  assumes "- (2 ^ 63) \<le> k" and "k < 2 ^ 63"
  shows "sint (word_of_int k :: int64) = k"
  using assms by (simp add: sint_sbintrunc' signed_take_bit_int_eq_self)

lemma addSec_no_overflow:
  assumes "- (2 ^ 63) \<le> sint (sec t) + sint d" and "sint (sec t) + sint d < 2 ^ 63"
  shows "addSec t d = t\<lparr>sec := sec t + d\<rparr>"
proof -
  have "sint (sec t + d) = sint (sec t) + sint d"
    using assms by (rule sint_sum_no_overflow)
  then show ?thesis
    by (simp add: addSec_def Let_def word_sless_alt)
qed

lemma Add_instant:
  assumes n: "0 \<le> nsec t" "nsec t < Second"
    and lo: "- (2 ^ 63) * Second \<le> instant t + sint d"
    and hi: "instant t + sint d < 2 ^ 63 * Second"
  shows "instant (Add t d) = instant t + sint d
       \<and> 0 \<le> nsec (Add t d) \<and> nsec (Add t d) < Second"
proof -
  define q where "q = sint d sdiv Second"
  define r where "r = sint d smod Second"
  define s where "s = sint (sec t)"
  have d: "sint d = q * 1000000000 + r"
    using sdiv_mult_smod_eq [of "sint d" Second] by (simp add: q_def r_def Second_def)
  have r: "- 1000000000 < r" "r < 1000000000"
    using smod_int_range [of Second "sint d"] by (simp_all add: r_def Second_def)
  have db: "- (2 ^ 63) \<le> sint d" "sint d < 2 ^ 63"
    using sint_ge [of d] sint_lt [of d] by simp_all
  have qb: "- 9223372038 < q" "q < 9223372038"
    using d r db by simp_all
  have n': "0 \<le> nsec t" "nsec t < 1000000000"
    using n by (simp_all add: Second_def)
  have lo': "- (2 ^ 63) * 1000000000 \<le> s * 1000000000 + nsec t + (q * 1000000000 + r)"
    and hi': "s * 1000000000 + nsec t + (q * 1000000000 + r) < 2 ^ 63 * 1000000000"
    using lo hi d by (simp_all add: instant_def Second_def s_def)
  have A: "Add t d =
     (if 1000000000 \<le> nsec t + r
      then addSec (t\<lparr>nsec := nsec t + r - 1000000000\<rparr>) (word_of_int q + 1)
      else if nsec t + r < 0
      then addSec (t\<lparr>nsec := nsec t + r + 1000000000\<rparr>) (word_of_int q - 1)
      else addSec (t\<lparr>nsec := nsec t + r\<rparr>) (word_of_int q))"
    by (simp add: Add_def Let_def q_def r_def Second_def)
  have goal: "instant t + sint d = s * 1000000000 + nsec t + (q * 1000000000 + r)"
    by (simp add: instant_def Second_def s_def d)
  consider (up) "1000000000 \<le> nsec t + r" | (down) "nsec t + r < 0"
    | (mid) "0 \<le> nsec t + r" "nsec t + r < 1000000000"
    by linarith
  then show ?thesis
  proof cases
    case up
    have q1: "sint (word_of_int q + 1 :: int64) = q + 1"
      using qb by (simp add: sint_word_ariths signed_take_bit_int_eq_self sint_of_int_int64)
    have rng: "- (2 ^ 63) \<le> s + (q + 1)" "s + (q + 1) < 2 ^ 63"
      using lo' hi' up n' r by simp_all
    have B: "Add t d = t\<lparr>nsec := nsec t + r - 1000000000, sec := sec t + (word_of_int q + 1)\<rparr>"
      using rng up unfolding A by (subst addSec_no_overflow) (simp_all add: q1 s_def)
    have C: "sint (sec t + (word_of_int q + 1 :: int64)) = s + (q + 1)"
      using rng by (subst sint_sum_no_overflow) (simp_all add: q1 s_def)
    show ?thesis
      unfolding goal using up n' r
      by (simp add: B C instant_def Second_def)
  next
    case down
    have q1: "sint (word_of_int q - 1 :: int64) = q - 1"
      using qb by (simp add: sint_word_ariths signed_take_bit_int_eq_self sint_of_int_int64)
    have rng: "- (2 ^ 63) \<le> s + (q - 1)" "s + (q - 1) < 2 ^ 63"
      using lo' hi' down n' r by simp_all
    have B: "Add t d = t\<lparr>nsec := nsec t + r + 1000000000, sec := sec t + (word_of_int q - 1)\<rparr>"
      using rng down n' r unfolding A by (subst addSec_no_overflow) (simp_all add: q1 s_def)
    have C: "sint (sec t + (word_of_int q - 1 :: int64)) = s + (q - 1)"
      using rng by (subst sint_sum_no_overflow) (simp_all add: q1 s_def)
    show ?thesis
      unfolding goal using down n' r
      by (simp add: B C instant_def Second_def)
  next
    case mid
    have q1: "sint (word_of_int q :: int64) = q"
      using qb by (simp add: sint_of_int_int64)
    have rng: "- (2 ^ 63) \<le> s + q" "s + q < 2 ^ 63"
      using lo' hi' mid n' r by simp_all
    have B: "Add t d = t\<lparr>nsec := nsec t + r, sec := sec t + word_of_int q\<rparr>"
      using rng mid unfolding A by (subst addSec_no_overflow) (simp_all add: q1 s_def)
    have C: "sint (sec t + (word_of_int q :: int64)) = s + q"
      using rng by (subst sint_sum_no_overflow) (simp_all add: q1 s_def)
    show ?thesis
      unfolding goal using mid n' r
      by (simp add: B C instant_def Second_def)
  qed
qed

lemma div_switch_whole_seconds:
  assumes s: "0 \<le> sint s1" and d: "0 < sint d"
  shows "sint (div_switch s1 0 d) = (sint s1 * Second) mod sint d"
proof -
  have db: "sint d < 2 ^ 63" using sint_lt [of d] by simp
  have sb: "sint s1 < 2 ^ 63" using sint_lt [of s1] by simp
  consider (sub) "sint d < Second" "Second smod (sint d + sint d) = 0"
    | (whole) "\<not> (sint d < Second \<and> Second smod (sint d + sint d) = 0)" "sint d smod Second = 0"
    | (general) "\<not> (sint d < Second \<and> Second smod (sint d + sint d) = 0)" "sint d smod Second \<noteq> 0"
    by blast
  then show ?thesis
  proof cases
    case sub
    have "Second mod (sint d + sint d) = 0"
      using sub(2) d by (simp add: smod_mod_positive Second_def)
    then have "(sint d + sint d) dvd Second" by (simp add: dvd_eq_mod_eq_0)
    then have "sint d dvd Second" by (metis dvd_add_triv_left_iff dvd_trans dvd_refl dvd_add)
    then have "(sint s1 * Second) mod sint d = 0" by simp
    with sub show ?thesis by (auto simp: div_switch_def)
  next
    case whole
    define d1 where "d1 = sint d sdiv Second"
    have dd: "sint d = d1 * Second"
      using sdiv_mult_smod_eq [of "sint d" Second] whole(2) by (simp add: d1_def)
    have d1: "0 < d1" using d dd by (simp add: Second_def zero_less_mult_iff)
    have m: "sint s1 smod d1 = sint s1 mod d1"
      using s d1 by (simp add: smod_mod_positive)
    have mb: "0 \<le> sint s1 mod d1" "sint s1 mod d1 < d1" using d1 by simp_all
    have eq: "(sint s1 * Second) mod sint d = (sint s1 mod d1) * Second"
      by (simp add: dd)
    have rng: "(sint s1 mod d1) * Second < 2 ^ 63"
    proof -
      have "(sint s1 mod d1) * Second < d1 * Second"
        using mb by (simp add: Second_def)
      then show ?thesis using dd db by simp
    qed
    have "div_switch s1 0 d = word_of_int ((sint s1 mod d1) * Second)"
      using whole by (auto simp: div_switch_def m simp flip: d1_def)
    moreover have "sint (word_of_int ((sint s1 mod d1) * Second) :: int64) = (sint s1 mod d1) * Second"
      using rng mb by (intro sint_of_int_int64) (simp_all add: Second_def)
    ultimately show ?thesis by (simp add: eq)
  next
    case general
    have u: "uint s1 = sint s1"
      using s sb by (simp add: uint_sint take_bit_int_eq_self)
    have mb: "0 \<le> (sint s1 * Second) mod sint d" "(sint s1 * Second) mod sint d < sint d"
      using d by simp_all
    have "div_switch s1 0 d = word_of_int ((sint s1 * Second) mod sint d)"
      using general by (auto simp: div_switch_def u)
    moreover have "sint (word_of_int ((sint s1 * Second) mod sint d) :: int64)
        = (sint s1 * Second) mod sint d"
      using mb db by (intro sint_of_int_int64) simp_all
    ultimately show ?thesis by simp
  qed
qed

lemma div_rem_whole_seconds:
  assumes n: "nsec t = 0" and s: "- (2 ^ 63) < sint (sec t)" and d: "0 < sint d"
  shows "sint (div_rem t d) = instant t mod sint d"
proof (cases "sec t <s 0")
  case False
  then have "0 \<le> sint (sec t)" by (simp add: word_sless_alt)
  from div_switch_whole_seconds [OF this d] False n show ?thesis
    by (simp add: div_rem_def Let_def instant_def)
next
  case True
  then have neg: "sint (sec t) < 0" by (simp add: word_sless_alt)
  have m: "sint (- sec t) = - sint (sec t)"
    using s sint_lt [of "sec t"] by (simp add: sint_word_ariths signed_take_bit_int_eq_self)
  then have "0 \<le> sint (- sec t)" using neg by simp
  from div_switch_whole_seconds [OF this d]
  have r0: "sint (div_switch (- sec t) 0 d) = (- instant t) mod sint d"
    by (simp add: m instant_def n)
  define r where "r = div_switch (- sec t) 0 d"
  have rb: "0 \<le> sint r" "sint r < sint d" using r0 d by (simp_all add: r_def)
  have D: "div_rem t d = (if r \<noteq> 0 then d - r else r)"
    using True n by (simp add: div_rem_def Let_def r_def)
  show ?thesis
  proof (cases "r = 0")
    case True
    then have "(- instant t) mod sint d = 0" using r0 by (simp add: r_def)
    then have "sint d dvd - instant t" by (rule mod_0_imp_dvd)
    then have "sint d dvd instant t" by simp
    then have "instant t mod sint d = 0" by (rule dvd_imp_mod_0)
    with True D show ?thesis by simp
  next
    case False
    then have nz: "sint r \<noteq> 0" by (metis signed_eq_0_iff)
    have "sint (d - r) = sint d - sint r"
      using rb sint_lt [of d] by (simp add: sint_word_ariths signed_take_bit_int_eq_self)
    moreover have "instant t mod sint d = sint d - (- instant t) mod sint d"
      using nz r0 by (simp add: r_def zmod_zminus1_eq_if split: if_splits)
    ultimately show ?thesis using False D r0 by (simp add: r_def)
  qed
qed

lemma Add_saturates:
  assumes n: "0 \<le> nsec t" "nsec t < Second"
    and hi: "2 ^ 63 * Second \<le> instant t + sint d"
  shows "sec (Add t d) = 9223372036854775807 \<and> 0 \<le> nsec (Add t d)"
proof -
  define q where "q = sint d sdiv Second"
  define r where "r = sint d smod Second"
  define s where "s = sint (sec t)"
  have d: "sint d = q * 1000000000 + r"
    using sdiv_mult_smod_eq [of "sint d" Second] by (simp add: q_def r_def Second_def)
  have r: "- 1000000000 < r" "r < 1000000000"
    using smod_int_range [of Second "sint d"] by (simp_all add: r_def Second_def)
  have db: "- (2 ^ 63) \<le> sint d" "sint d < 2 ^ 63"
    using sint_ge [of d] sint_lt [of d] by simp_all
  have sb: "s < 2 ^ 63" using sint_lt [of "sec t"] by (simp add: s_def)
  have qb: "- 9223372038 < q" "q < 9223372038"
    using d r db by simp_all
  have n': "0 \<le> nsec t" "nsec t < 1000000000"
    using n by (simp_all add: Second_def)
  have hi': "2 ^ 63 * 1000000000 \<le> s * 1000000000 + nsec t + (q * 1000000000 + r)"
    using hi d by (simp_all add: instant_def Second_def s_def)
  have sat: "addSec u e = u\<lparr>sec := 9223372036854775807\<rparr>"
    if "sec u = sec t" and "2 ^ 63 \<le> s + sint e" for u e
  proof -
    have e: "0 < sint e" using that(2) sb by simp
    have "sint (sec u + e) = signed_take_bit 63 (s + sint e)"
      by (simp add: sint_word_ariths that(1) s_def)
    also have "\<dots> \<le> s + sint e - 2 ^ Suc 63"
      using that(2) by (intro signed_take_bit_int_less_eq) simp
    also have "\<dots> < s" using sint_lt [of e] by simp
    finally have "\<not> sec u <s sec u + e"
      by (simp add: word_sless_alt that(1) s_def)
    with e show ?thesis
      by (simp add: addSec_def Let_def word_sless_alt)
  qed
  have A: "Add t d =
     (if 1000000000 \<le> nsec t + r
      then addSec (t\<lparr>nsec := nsec t + r - 1000000000\<rparr>) (word_of_int q + 1)
      else if nsec t + r < 0
      then addSec (t\<lparr>nsec := nsec t + r + 1000000000\<rparr>) (word_of_int q - 1)
      else addSec (t\<lparr>nsec := nsec t + r\<rparr>) (word_of_int q))"
    by (simp add: Add_def Let_def q_def r_def Second_def)
  consider (up) "1000000000 \<le> nsec t + r" | (down) "nsec t + r < 0"
    | (mid) "0 \<le> nsec t + r" "nsec t + r < 1000000000"
    by linarith
  then show ?thesis
  proof cases
    case up
    have q1: "sint (word_of_int q + 1 :: int64) = q + 1"
      using qb by (simp add: sint_word_ariths signed_take_bit_int_eq_self sint_of_int_int64)
    have "2 ^ 63 \<le> s + (q + 1)" using hi' up n' r by simp
    then have "addSec (t\<lparr>nsec := nsec t + r - 1000000000\<rparr>) (word_of_int q + 1) =
        t\<lparr>nsec := nsec t + r - 1000000000, sec := 9223372036854775807\<rparr>"
      by (subst sat) (simp_all add: q1)
    then show ?thesis
      using up unfolding A by simp
  next
    case down
    have q1: "sint (word_of_int q - 1 :: int64) = q - 1"
      using qb by (simp add: sint_word_ariths signed_take_bit_int_eq_self sint_of_int_int64)
    have "2 ^ 63 \<le> s + (q - 1)" using hi' down n' r by simp
    then have "addSec (t\<lparr>nsec := nsec t + r + 1000000000\<rparr>) (word_of_int q - 1) =
        t\<lparr>nsec := nsec t + r + 1000000000, sec := 9223372036854775807\<rparr>"
      by (subst sat) (simp_all add: q1)
    then show ?thesis
      using down n' r unfolding A by simp
  next
    case mid
    have q1: "sint (word_of_int q :: int64) = q"
      using qb by (simp add: sint_of_int_int64)
    have "2 ^ 63 \<le> s + q" using hi' mid n' r by simp
    then have "addSec (t\<lparr>nsec := nsec t + r\<rparr>) (word_of_int q) =
        t\<lparr>nsec := nsec t + r, sec := 9223372036854775807\<rparr>"
      by (subst sat) (simp_all add: q1)
    then show ?thesis
      using mid unfolding A by simp
  qed
qed

lemma Before_instant:
  assumes "0 \<le> nsec t" "nsec t < Second" "0 \<le> nsec u" "nsec u < Second"
  shows "Before t u \<longleftrightarrow> instant t < instant u"
proof -
  have "sint (sec t) < sint (sec u) \<Longrightarrow> instant t < instant u"
  proof -
    assume "sint (sec t) < sint (sec u)"
    then have "sint (sec t) + 1 \<le> sint (sec u)" by simp
    then have "(sint (sec t) + 1) * 1000000000 \<le> sint (sec u) * 1000000000" by simp
    then show ?thesis using assms by (simp add: instant_def Second_def)
  qed
  moreover have "sint (sec u) < sint (sec t) \<Longrightarrow> instant u < instant t"
  proof -
    assume "sint (sec u) < sint (sec t)"
    then have "sint (sec u) + 1 \<le> sint (sec t)" by simp
    then have "(sint (sec u) + 1) * 1000000000 \<le> sint (sec t) * 1000000000" by simp
    then show ?thesis using assms by (simp add: instant_def Second_def)
  qed
  moreover have "sec t = sec u \<longleftrightarrow> sint (sec t) = sint (sec u)"
    by (auto intro: signed_word_eqI)
  ultimately show ?thesis
    unfolding Before_def word_sless_alt
    by (cases "sint (sec t)" "sint (sec u)" rule: linorder_cases) (auto simp: instant_def)
qed

lemma Truncate_instant:
  assumes n: "nsec t = 0" and d: "0 < sint d"
    and lo: "- (2 ^ 63) * Second \<le> truncate_down (instant t) (sint d)"
    and s: "- (2 ^ 63) < sint (sec t)"
  shows "instant (Truncate t d) = truncate_down (instant t) (sint d)
       \<and> 0 \<le> nsec (Truncate t d) \<and> nsec (Truncate t d) < Second"
proof -
  have r: "sint (div_rem t d) = instant t mod sint d"
    using n s d by (rule div_rem_whole_seconds)
  have rb: "0 \<le> instant t mod sint d" "instant t mod sint d < sint d"
    using d by simp_all
  have m: "sint (- div_rem t d) = - (instant t mod sint d)"
    using r rb sint_lt [of d]
    by (simp add: sint_word_ariths signed_take_bit_int_eq_self)
  have td: "truncate_down (instant t) (sint d) = instant t - instant t mod sint d"
    using d by (simp add: truncate_down_def)
  have hi: "instant t < 2 ^ 63 * Second"
    using sint_lt [of "sec t"] n by (simp add: instant_def Second_def)
  have "instant (Add t (- div_rem t d)) = instant t + sint (- div_rem t d)
       \<and> 0 \<le> nsec (Add t (- div_rem t d)) \<and> nsec (Add t (- div_rem t d)) < Second"
    using n lo hi rb by (intro Add_instant) (simp_all add: m td Second_def)
  then show ?thesis
    using d by (simp add: Truncate_def m td)
qed

lemma AddRange_NewRanges: "AddRange NewRanges r = [r]"
  by (simp add: AddRange_def NewRanges_def)

lemma leadingSpace_Nil: "leadingSpace [] = 0"
  by (simp add: leadingSpace_def spaceRunes_def)

lemma trailingSpace_Nil: "trailingSpace [] = 0"
  by (simp add: trailingSpace_def spaceRunes_def)

lemma TrimSpace_Nil: "TrimSpace [] = []"
  by (simp add: TrimSpace_def TrimLeftSpace.simps TrimRightSpace.simps
      leadingSpace_Nil trailingSpace_Nil)

text \<open>\<open>uint32(value)\<close> is \<open>value\<close> modulo \<open>2^32\<close>; the shard ids below a bound.\<close>

lemma uint_ucast_shard:
  fixes v :: int64
  shows "uint (ucast v :: uint32) = sint v mod 2 ^ 32"
proof -
  have "uint (ucast v :: uint32) = take_bit 32 (uint v)"
    by (simp add: unsigned_ucast_eq)
  also have "\<dots> = take_bit 32 (signed_take_bit 63 (uint v))"
    by (simp add: take_bit_signed_take_bit)
  also have "signed_take_bit 63 (uint v) = sint v"
    by (simp add: sint_uint)
  finally show ?thesis by (simp add: take_bit_eq_mod)
qed

lemma below_eq_image:
  fixes n :: uint32
  shows "{k. k < n} = word_of_nat ` {0..<unat n}"
proof (intro set_eqI iffI)
  fix k assume "k \<in> {k. k < n}"
  then have "unat k < unat n" by (simp add: word_less_nat_alt)
  moreover have "word_of_nat (unat k) = k" by simp
  ultimately show "k \<in> word_of_nat ` {0..<unat n}"
    by (metis atLeastLessThan_iff imageI le0)
next
  fix k :: uint32 assume "k \<in> word_of_nat ` {0..<unat n}"
  then obtain j where j: "j < unat n" and k: "k = word_of_nat j" by auto
  from j have "unat (word_of_nat j :: uint32) = j"
    by (intro le_unat_uoi [of _ n]) simp
  with j k show "k \<in> {k. k < n}" by (simp add: word_less_nat_alt)
qed

lemma card_below:
  fixes n :: uint32
  shows "card {k. k < n} = unat n"
proof -
  have "inj_on (word_of_nat :: nat \<Rightarrow> uint32) {0..<unat n}"
  proof (rule inj_on_inverseI [where g = unat])
    fix j assume "j \<in> {0..<unat n}"
    then show "unat (word_of_nat j :: uint32) = j"
      by (intro le_unat_uoi [of _ n]) simp
  qed
  then show ?thesis
    by (simp add: below_eq_image card_image)
qed

section \<open>What the two loops compute\<close>

lemma shardListLoop_eq:
  "shardListLoop s rng toks st =
     (case find badToken toks of
        Some t \<Rightarrow> Inl (FatalExit (fatalOf s t))
      | None \<Rightarrow>
          Inr ((\<lambda>k. if k \<in> shardOf ` set toks then Some (AddRange NewRanges rng) else fst st k),
               snd st @ map shardOf toks))"
proof (induction toks arbitrary: st)
  case Nil
  then show ?case by simp
next
  case (Cons tok toks)
  show ?case
  proof (cases "badToken tok")
    case True
    then show ?thesis
      by (auto simp: badToken_def fatalOf_def)
  next
    case False
    then obtain v where v: "Atoi (TrimSpace tok) = Some v" and ne: "TrimSpace tok \<noteq> []"
      by (auto simp: badToken_def)
    have s: "shardOf tok = ucast v" by (simp add: shardOf_def v)
    show ?thesis
      using False ne v s
        Cons.IH [of "((fst st)(ucast v \<mapsto> AddRange NewRanges rng), snd st @ [ucast v])"]
      by (auto simp: fun_eq_iff split: option.splits)
  qed
qed

lemma shardCountLoop_eq:
  "shardCountLoop i n rng st =
     ((\<lambda>k. if i \<le> k \<and> k < n then Some (AddRange NewRanges rng) else fst st k),
      snd st @ map word_of_nat [unat i..<unat n])"
proof (induction i n rng st rule: shardCountLoop.induct)
  case (1 i n rng st)
  show ?case
  proof (cases "i < n")
    case True
    then have lt: "unat i < unat n" by (simp add: word_less_nat_alt)
    then have "unat i + 1 < 2 ^ 32"
      using unsigned_less [of n, where ?'a = nat] by simp
    then have suc: "unat (i + 1) = unat i + 1"
      by (simp add: unat_word_ariths)
    have le: "\<And>k. i + 1 \<le> k \<longleftrightarrow> i < k"
      using suc by (auto simp: word_le_nat_alt word_less_nat_alt)
    have upt: "[unat i..<unat n] = unat i # [unat (i + 1)..<unat n]"
      using lt suc by (simp add: upt_conv_Cons)
    show ?thesis
      using True "1.IH" [OF True]
      apply (subst shardCountLoop.simps)
      apply (simp add: le upt fun_eq_iff)
      by auto
  next
    case False
    then have "unat n \<le> unat i" by (simp add: word_less_nat_alt)
    with False show ?thesis
      by (subst shardCountLoop.simps) (auto simp: fun_eq_iff prod_eq_iff)
  qed
qed

section \<open>What the planner returns\<close>

lemma planner_list:
  assumes "TrimSpace (shards cfg) \<noteq> []"
  shows "planner cfg =
     (case find badToken (Split (shards cfg) CHR '','') of
        Some t \<Rightarrow> Inl (FatalExit (fatalOf (shards cfg) t))
      | None \<Rightarrow>
          Inr ((\<lambda>k. if k \<in> shardOf ` set (Split (shards cfg) CHR '','')
                    then Some [window cfg] else None),
               map shardOf (Split (shards cfg) CHR '','')))"
  using assms by (simp add: planner_def shardListLoop_eq AddRange_NewRanges fun_eq_iff split: option.splits)

lemma planner_count:
  assumes "TrimSpace (shards cfg) = []" and "0 <s shardsCount cfg"
  shows "planner cfg =
     Inr ((\<lambda>k. if k < ucast (shardsCount cfg) then Some [window cfg] else None),
          map word_of_nat [0..<unat (ucast (shardsCount cfg) :: uint32)])"
  using assms by (simp add: planner_def shardCountLoop_eq AddRange_NewRanges fun_eq_iff)

lemma planner_usage:
  assumes "TrimSpace (shards cfg) = []" and "\<not> 0 <s shardsCount cfg"
  shows "planner cfg = Inl UsageExit"
  using assms by (simp add: planner_def)

lemma planner_stored:
  assumes "planner cfg = Inr (m, ids)" and "m k = Some rs"
  shows "rs = [window cfg]"
proof (cases "TrimSpace (shards cfg) = []")
  case True
  with assms(1) have "0 <s shardsCount cfg"
    by (auto simp: planner_def split: if_splits)
  from planner_count [OF True this] assms show ?thesis
    by (auto split: if_splits)
next
  case False
  from planner_list [OF False] assms show ?thesis
    by (auto split: option.splits if_splits)
qed

text \<open>The shard list \<open>-1\<close>: the token is accepted and becomes the shard \<open>2^32 - 1\<close>.\<close>

lemma planner_minus_one:
  "planner ((defaults now)\<lparr>shards := ''-1''\<rparr>) =
     Inr ([4294967295 \<mapsto> [window (defaults now)]], [4294967295])"
proof -
  have t: "TrimSpace ''-1'' = ''-1''" by code_simp
  have s: "Split ''-1'' CHR '','' = [''-1'']" by code_simp
  have a: "Atoi ''-1'' = Some (- 1)" by code_simp
  have u: "(ucast (- 1 :: int64) :: uint32) = 4294967295" by code_simp
  have w: "window ((defaults now)\<lparr>shards := ''-1''\<rparr>) = window (defaults now)"
    by (simp add: window_def)
  show ?thesis
    by (simp add: planner_def t s a u w AddRange_NewRanges)
qed

text \<open>The spec's shard list \<open>5,5,7\<close>, and the shard count \<open>2^32\<close>.\<close>

lemma planner_5_5_7:
  "planner ((defaults now)\<lparr>shards := ''5,5,7''\<rparr>) =
     Inr ([5 \<mapsto> [window (defaults now)], 7 \<mapsto> [window (defaults now)]], [5, 5, 7])"
proof -
  have t: "TrimSpace ''5,5,7'' \<noteq> []" by code_simp
  have s: "Split ''5,5,7'' CHR '','' = [''5'', ''5'', ''7'']" by code_simp
  have t5: "TrimSpace ''5'' = ''5''" and t7: "TrimSpace ''7'' = ''7''" by code_simp+
  have a5: "Atoi ''5'' = Some 5" and a7: "Atoi ''7'' = Some 7" by code_simp+
  have w: "window ((defaults now)\<lparr>shards := ''5,5,7''\<rparr>) = window (defaults now)"
    by (simp add: window_def)
  show ?thesis
    by (simp add: planner_def t s t5 t7 a5 a7 w AddRange_NewRanges)
qed

lemma planner_count_wraps:
  "planner ((defaults now)\<lparr>shardsCount := 4294967296\<rparr>) = Inr (Map.empty, [])"
proof -
  have u: "(ucast (4294967296 :: int64) :: uint32) = 0" by code_simp
  show ?thesis
    by (simp add: planner_def defaults_def TrimSpace_Nil word_sless_alt u shardCountLoop.simps)
qed

text \<open>The spec's shard list \<open>1, 2, abc\<close>, and the shard count 1.\<close>

lemma planner_1_2_abc:
  assumes "shards cfg = ''1, 2, abc''"
  shows "planner cfg = Inl (FatalExit (CouldNotParseShard ''abc''))"
proof -
  have t: "TrimSpace ''1, 2, abc'' \<noteq> []" by code_simp
  have f: "find badToken (Split ''1, 2, abc'' CHR '','') = Some '' abc''" by code_simp
  have e: "TrimSpace '' abc'' = ''abc''" by code_simp
  from t have "TrimSpace (shards cfg) \<noteq> []" by (simp add: assms)
  from planner_list [OF this, unfolded assms f] show ?thesis
    by (simp add: fatalOf_def e)
qed

lemma planner_one_shard:
  "planner ((defaults now)\<lparr>shardsCount := 1\<rparr>) = Inr ([0 \<mapsto> [window (defaults now)]], [0])"
proof -
  have w: "window ((defaults now)\<lparr>shardsCount := 1\<rparr>) = window (defaults now)"
    by (simp add: window_def defaults_def)
  show ?thesis
    by (simp add: planner_def w TrimSpace_Nil shardCountLoop.simps AddRange_NewRanges
        word_sless_alt)
       (simp add: defaults_def TrimSpace_Nil)
qed

text \<open>The calls of \<open>Bootstrap\<close> that a run makes.\<close>

lemma bootstrapCalls_invoke:
  "bootstrapCalls (fst (invoke env cfg m ids)) =
     (if NewCommitLogBootstrapper env cfg = None \<and> NewMetadata env cfg = None
      then [(namespaceStr cfg, m, False)] else [])"
  by (simp add: invoke_def Let_def split: option.splits)

lemma bootstrapCalls_main:
  "bootstrapCalls (fst (main env cfg)) =
     (case planner cfg of
        Inr (m, ids) \<Rightarrow>
          (if pathPrefix cfg \<noteq> [] \<and> namespaceStr cfg \<noteq> []
              \<and> NewCommitLogBootstrapper env cfg = None \<and> NewMetadata env cfg = None
           then [(namespaceStr cfg, m, False)] else [])
      | Inl e \<Rightarrow> [])"
  by (auto simp: main_def bootstrapCalls_invoke split: sum.splits exit.splits prod.splits)

section \<open>What the window is\<close>

lemma referenceTime_whole_second: "nsec (referenceTime cfg) = 0"
  by (simp add: referenceTime_def Unix_def)

lemma spec_truncated_bounds:
  assumes "0 < sint (blockSize cfg)"
  shows "spec_truncated cfg \<le> instant (referenceTime cfg)"
    and "instant (referenceTime cfg) < spec_truncated cfg + sint (blockSize cfg)"
  using truncate_down_greatest_multiple [of "sint (blockSize cfg)" "instant (referenceTime cfg)"] assms
  by (simp_all add: spec_truncated_def)

lemma window_truncated:
  assumes b: "0 < sint (blockSize cfg)"
    and lo: "- (2 ^ 63) * Second \<le> spec_start cfg"
  shows "instant (Truncate (referenceTime cfg) (blockSize cfg)) = spec_truncated cfg
       \<and> 0 \<le> nsec (Truncate (referenceTime cfg) (blockSize cfg))
       \<and> nsec (Truncate (referenceTime cfg) (blockSize cfg)) < Second"
proof -
  have t: "- (2 ^ 63) * Second < spec_truncated cfg"
    using lo b by (simp add: spec_start_def)
  then have "- (2 ^ 63) * Second < instant (referenceTime cfg)"
    using spec_truncated_bounds(1) [OF b] by simp
  then have s: "- (2 ^ 63) < sint (sec (referenceTime cfg))"
    by (simp add: instant_def referenceTime_whole_second Second_def)
  from t have t': "- (2 ^ 63) * Second \<le> truncate_down (instant (referenceTime cfg)) (sint (blockSize cfg))"
    by (simp add: spec_truncated_def)
  from Truncate_instant [OF referenceTime_whole_second b t' s]
  show ?thesis by (simp add: spec_truncated_def)
qed

lemma window_start:
  assumes b: "0 < sint (blockSize cfg)"
    and lo: "- (2 ^ 63) * Second \<le> spec_start cfg"
  shows "instant (Start (window cfg)) = spec_start cfg
       \<and> 0 \<le> nsec (Start (window cfg)) \<and> nsec (Start (window cfg)) < Second"
proof -
  let ?tr = "Truncate (referenceTime cfg) (blockSize cfg)"
  have tr: "instant ?tr = spec_truncated cfg" "0 \<le> nsec ?tr" "nsec ?tr < Second"
    using window_truncated [OF b lo] by simp_all
  have neg: "sint (- blockSize cfg) = - sint (blockSize cfg)"
    using b by (intro sint_minus_Duration) simp
  have hi: "instant (referenceTime cfg) < 2 ^ 63 * Second"
    using sint_lt [of "sec (referenceTime cfg)"]
    by (simp add: instant_def referenceTime_whole_second Second_def)
  have "instant (Add ?tr (- blockSize cfg)) = instant ?tr + sint (- blockSize cfg)
       \<and> 0 \<le> nsec (Add ?tr (- blockSize cfg)) \<and> nsec (Add ?tr (- blockSize cfg)) < Second"
    using tr lo b hi spec_truncated_bounds(1) [OF b]
    by (intro Add_instant) (simp_all add: neg spec_start_def)
  then show ?thesis
    by (simp add: window_def startInclusive_def tr neg spec_start_def flip: referenceTime_def)
qed

lemma window_end:
  assumes b: "0 < sint (blockSize cfg)" "sint (blockSize cfg) < 2 ^ 62"
    and lo: "- (2 ^ 63) * Second \<le> spec_start cfg"
  shows "spec_end cfg < 2 ^ 63 * Second \<Longrightarrow> instant (End (window cfg)) = spec_end cfg"
    and "2 ^ 63 * Second \<le> spec_end cfg \<Longrightarrow> sec (End (window cfg)) = 9223372036854775807"
    and "0 \<le> nsec (End (window cfg))"
proof -
  let ?tr = "Truncate (referenceTime cfg) (blockSize cfg)"
  have tr: "instant ?tr = spec_truncated cfg" "0 \<le> nsec ?tr" "nsec ?tr < Second"
    using window_truncated [OF b(1) lo] by simp_all
  have dbl: "sint (blockSize cfg * 2) = 2 * sint (blockSize cfg)"
    using b by (intro sint_double_Duration) simp_all
  have e: "End (window cfg) = Add ?tr (blockSize cfg * 2)"
    by (simp add: window_def endExclusive_def referenceTime_def)
  have fit: "instant (Add ?tr (blockSize cfg * 2)) = instant ?tr + sint (blockSize cfg * 2)
       \<and> 0 \<le> nsec (Add ?tr (blockSize cfg * 2)) \<and> nsec (Add ?tr (blockSize cfg * 2)) < Second"
    if "spec_end cfg < 2 ^ 63 * Second"
    using tr lo b that by (intro Add_instant) (simp_all add: dbl spec_start_def spec_end_def)
  have sat: "sec (Add ?tr (blockSize cfg * 2)) = 9223372036854775807
       \<and> 0 \<le> nsec (Add ?tr (blockSize cfg * 2))"
    if "2 ^ 63 * Second \<le> spec_end cfg"
    using tr that by (intro Add_saturates) (simp_all add: dbl spec_end_def)
  show "spec_end cfg < 2 ^ 63 * Second \<Longrightarrow> instant (End (window cfg)) = spec_end cfg"
    using fit by (simp add: e tr dbl spec_end_def)
  show "2 ^ 63 * Second \<le> spec_end cfg \<Longrightarrow> sec (End (window cfg)) = 9223372036854775807"
    using sat by (simp add: e)
  show "0 \<le> nsec (End (window cfg))"
    using fit sat by (cases "spec_end cfg < 2 ^ 63 * Second") (simp_all add: e)
qed

lemma window_ordered:
  assumes b: "0 < sint (blockSize cfg)" "sint (blockSize cfg) < 2 ^ 62"
    and lo: "- (2 ^ 63) * Second \<le> spec_start cfg"
  shows "Before (Start (window cfg)) (End (window cfg))"
proof (cases "spec_end cfg < 2 ^ 63 * Second")
  case True
  have s: "instant (Start (window cfg)) = spec_start cfg"
    "0 \<le> nsec (Start (window cfg))" "nsec (Start (window cfg)) < Second"
    using window_start [OF b(1) lo] by simp_all
  have tr: "0 \<le> nsec (Truncate (referenceTime cfg) (blockSize cfg))"
    "nsec (Truncate (referenceTime cfg) (blockSize cfg)) < Second"
    using window_truncated [OF b(1) lo] by simp_all
  have dbl: "sint (blockSize cfg * 2) = 2 * sint (blockSize cfg)"
    using b by (intro sint_double_Duration) simp_all
  have e: "instant (End (window cfg)) = spec_end cfg"
    using window_end(1) [OF b lo True] .
  have en: "0 \<le> nsec (End (window cfg))" "nsec (End (window cfg)) < Second"
  proof -
    have "End (window cfg) = Add (Truncate (referenceTime cfg) (blockSize cfg)) (blockSize cfg * 2)"
      by (simp add: window_def endExclusive_def referenceTime_def)
    moreover have "instant (Add (Truncate (referenceTime cfg) (blockSize cfg)) (blockSize cfg * 2)) =
        instant (Truncate (referenceTime cfg) (blockSize cfg)) + sint (blockSize cfg * 2)
       \<and> 0 \<le> nsec (Add (Truncate (referenceTime cfg) (blockSize cfg)) (blockSize cfg * 2))
       \<and> nsec (Add (Truncate (referenceTime cfg) (blockSize cfg)) (blockSize cfg * 2)) < Second"
      using tr lo b True window_truncated [OF b(1) lo]
      by (intro Add_instant) (simp_all add: dbl spec_start_def spec_end_def)
    ultimately show "0 \<le> nsec (End (window cfg))" "nsec (End (window cfg)) < Second"
      by simp_all
  qed
  have "instant (Start (window cfg)) < instant (End (window cfg))"
    using b by (simp add: s e spec_start_def spec_end_def)
  then show ?thesis
    using s en by (simp add: Before_instant)
next
  case False
  then have sat: "sec (End (window cfg)) = 9223372036854775807"
    using window_end(2) [OF b lo] by simp
  have s: "instant (Start (window cfg)) = spec_start cfg"
    "0 \<le> nsec (Start (window cfg))" "nsec (Start (window cfg)) < Second"
    using window_start [OF b(1) lo] by simp_all
  have "spec_start cfg < instant (referenceTime cfg)"
    using spec_truncated_bounds(1) [OF b(1)] b by (simp add: spec_start_def)
  also have "\<dots> \<le> 9223372036854775807 * Second"
    using sint_lt [of "sec (referenceTime cfg)"]
    by (simp add: instant_def referenceTime_whole_second Second_def)
  finally have lt: "instant (Start (window cfg)) < 9223372036854775807 * Second"
    by (simp add: s)
  have "sint (sec (Start (window cfg))) < 9223372036854775807"
  proof (rule ccontr)
    assume "\<not> sint (sec (Start (window cfg))) < 9223372036854775807"
    then have "9223372036854775807 * Second \<le> sint (sec (Start (window cfg))) * Second"
      by (simp add: Second_def)
    with s(2) lt show False by (simp add: instant_def)
  qed
  then show ?thesis
    by (simp add: Before_def sat word_sless_alt)
qed

text \<open>
  While \<open>time.Unix\<close> does not wrap around, that is up to the current time
  9223371974719179007, the start of the window in the spec's words is representable.
\<close>

lemma start_representable:
  assumes b: "0 < sint (blockSize cfg)" "sint (blockSize cfg) < 2 ^ 62"
    and ts: "sint (currentUnixTimestamp cfg) + 62135596800 < 2 ^ 63"
  shows "representable (spec_start cfg)"
proof -
  have ge: "- (2 ^ 63) \<le> sint (currentUnixTimestamp cfg)"
    using sint_ge [of "currentUnixTimestamp cfg"] by simp
  have u: "sint (currentUnixTimestamp cfg + unixToInternal)
      = sint (currentUnixTimestamp cfg) + 62135596800"
    using ts ge by (subst sint_sum_no_overflow) (simp_all add: unixToInternal_def)
  have n: "instant (referenceTime cfg) = (sint (currentUnixTimestamp cfg) + 62135596800) * 1000000000"
    by (simp add: instant_def referenceTime_def Unix_def u Second_def)
  have "instant (referenceTime cfg) - sint (blockSize cfg) < spec_truncated cfg"
    using spec_truncated_bounds(2) [OF b(1)] by simp
  moreover have "spec_truncated cfg \<le> instant (referenceTime cfg)"
    using spec_truncated_bounds(1) [OF b(1)] .
  ultimately show ?thesis
    using b ts ge by (simp add: representable_def spec_start_def n Second_def)
qed

section \<open>The claims about the bootstrap window\<close>

text \<open>
  C1 (as amended). For every current time and every block size \<open>b\<close> with
  \<open>0 < b < 2^62\<close> nanoseconds for which the two ends of the window in the spec's words
  are representable, the planner's window starts at the reference time truncated down to
  the nearest multiple of \<open>b\<close>, minus \<open>b\<close>, and ends at that multiple plus \<open>2 * b\<close>. The
  reference time is \<open>time.Unix(currentUnixTimestamp, 0)\<close>, as Go computes it.
\<close>

theorem C1_window:
  assumes "0 < sint (blockSize cfg)" and "sint (blockSize cfg) < 2 ^ 62"
    and "representable (spec_start cfg)" and "representable (spec_end cfg)"
  shows "instant (Start (window cfg)) = spec_start cfg
       \<and> instant (End (window cfg)) = spec_end cfg"
  using assms window_start [of cfg] window_end(1) [of cfg]
  by (simp add: representable_def)

text \<open>
  The spec's scenario: a block size of 10 minutes and a current time \<open>T = 1500000123\<close>,
  which truncates to \<open>t0 = 1500000000\<close>; the window is from \<open>t0 - 10m\<close> to \<open>t0 + 20m\<close>.
\<close>

theorem C1_window_witness:
  "0 < sint (blockSize (defaults 1500000123))
   \<and> sint (blockSize (defaults 1500000123)) < 2 ^ 62
   \<and> representable (spec_start (defaults 1500000123))
   \<and> representable (spec_end (defaults 1500000123))
   \<and> instant (Start (window (defaults 1500000123))) = instant (Unix 1500000000) - 10 * Minute
   \<and> instant (End (window (defaults 1500000123))) = instant (Unix 1500000000) + 20 * Minute"
proof -
  have b: "0 < sint (blockSize (defaults 1500000123))"
    "sint (blockSize (defaults 1500000123)) < 2 ^ 62"
    by (simp_all add: defaults_def)
  have r: "representable (spec_start (defaults 1500000123))"
    "representable (spec_end (defaults 1500000123))"
    by code_simp+
  have s: "spec_start (defaults 1500000123) = instant (Unix 1500000000) - 10 * Minute"
    and e: "spec_end (defaults 1500000123) = instant (Unix 1500000000) + 20 * Minute"
    by code_simp+
  from C1_window [OF b r] b r show ?thesis by (simp add: s e)
qed

text \<open>
  C1 as stated, for every reference time and block size, fails in four ways. With
  \<open>-block-size=4611686018427387904ns\<close> (\<open>2^62\<close>) the product \<open>blockSize * 2\<close> wraps
  around to \<open>- 2^63\<close>, and the window ends before the truncated time. With
  \<open>-block-size=-10m\<close> \<open>Truncate\<close> leaves the time as it is: at the Unix time 1 the window
  starts at 601 seconds, not at 600. With \<open>-current-unix-timestamp=9223371974719179007\<close>
  and the default block size, the reference time is the last second of \<open>time.Time\<close>, and
  \<open>Add\<close> stops there: the window ends 7 seconds after the truncated time. With
  \<open>-current-unix-timestamp=9223371974719179008\<close> \<open>time.Unix\<close> wraps around to the first
  second of \<open>time.Time\<close>, and the start of the window is not 10 minutes before the
  truncated time.
\<close>

theorem C1_window_counterexample:
  "instant (End (window ((defaults 0)\<lparr>blockSize := 4611686018427387904\<rparr>)))
     \<noteq> spec_end ((defaults 0)\<lparr>blockSize := 4611686018427387904\<rparr>)
   \<and> instant (Start (window ((defaults 1)\<lparr>blockSize := - 600000000000\<rparr>)))
     \<noteq> spec_start ((defaults 1)\<lparr>blockSize := - 600000000000\<rparr>)
   \<and> instant (End (window (defaults 9223371974719179007)))
     \<noteq> spec_end (defaults 9223371974719179007)
   \<and> instant (Start (window (defaults 9223371974719179008)))
     \<noteq> spec_start (defaults 9223371974719179008)"
  by code_simp

text \<open>
  C2 (as amended). For every current time and every block size \<open>b\<close> with
  \<open>0 < b < 2^62\<close> nanoseconds for which the two ends of the window in the spec's words
  are representable, the window is \<open>3 * b\<close> long, it does not start after the truncated
  reference time, and it ends after it.
\<close>

theorem C2_window_width:
  assumes "0 < sint (blockSize cfg)" and "sint (blockSize cfg) < 2 ^ 62"
    and "representable (spec_start cfg)" and "representable (spec_end cfg)"
  shows "instant (End (window cfg)) - instant (Start (window cfg)) = 3 * sint (blockSize cfg)
       \<and> instant (Start (window cfg)) \<le> instant (Truncate (referenceTime cfg) (blockSize cfg))
       \<and> instant (Truncate (referenceTime cfg) (blockSize cfg)) < instant (End (window cfg))"
  using assms window_start [of cfg] window_end(1) [of cfg] window_truncated [of cfg]
  by (simp add: representable_def spec_start_def spec_end_def)

theorem C2_window_width_witness:
  "0 < sint (blockSize (defaults 1500000123))
   \<and> sint (blockSize (defaults 1500000123)) < 2 ^ 62
   \<and> representable (spec_start (defaults 1500000123))
   \<and> representable (spec_end (defaults 1500000123))
   \<and> instant (End (window (defaults 1500000123))) - instant (Start (window (defaults 1500000123)))
       = 30 * Minute
   \<and> instant (Start (window (defaults 1500000123)))
       \<le> instant (Truncate (referenceTime (defaults 1500000123)) 600000000000)
   \<and> instant (Truncate (referenceTime (defaults 1500000123)) 600000000000)
       < instant (End (window (defaults 1500000123)))"
proof -
  have b: "0 < sint (blockSize (defaults 1500000123))"
    "sint (blockSize (defaults 1500000123)) < 2 ^ 62"
    by (simp_all add: defaults_def)
  have r: "representable (spec_start (defaults 1500000123))"
    "representable (spec_end (defaults 1500000123))"
    by code_simp+
  have v: "blockSize (defaults 1500000123) = 600000000000" by (simp add: defaults_def)
  from C2_window_width [OF b r] b r show ?thesis
    by (simp add: v Minute_def Second_def)
qed

text \<open>
  C2 as stated, for any block size and reference time, fails: with \<open>-block-size=0\<close> the
  window ends at the truncated time, not after it; with \<open>-block-size=-10m\<close> it starts
  after the truncated time; with a block size of \<open>2^62\<close> nanoseconds its end minus its
  start is not \<open>3 * 2^62\<close>; with the default block size of 10 minutes it is 607 seconds
  long at the current time 9223371974719179007, and 20 minutes long at
  9223371974719179008.
\<close>

theorem C2_window_width_counterexample:
  "\<not> instant (Truncate (referenceTime ((defaults 0)\<lparr>blockSize := 0\<rparr>)) 0)
       < instant (End (window ((defaults 0)\<lparr>blockSize := 0\<rparr>)))
   \<and> \<not> instant (Start (window ((defaults 0)\<lparr>blockSize := - 600000000000\<rparr>)))
       \<le> instant (Truncate (referenceTime ((defaults 0)\<lparr>blockSize := - 600000000000\<rparr>))
             (- 600000000000))
   \<and> instant (End (window ((defaults 0)\<lparr>blockSize := 4611686018427387904\<rparr>)))
       - instant (Start (window ((defaults 0)\<lparr>blockSize := 4611686018427387904\<rparr>)))
     \<noteq> 3 * sint (4611686018427387904 :: Duration)
   \<and> instant (End (window (defaults 9223371974719179007)))
       - instant (Start (window (defaults 9223371974719179007)))
     \<noteq> 3 * sint (blockSize (defaults 9223371974719179007))
   \<and> instant (End (window (defaults 9223371974719179008)))
       - instant (Start (window (defaults 9223371974719179008)))
     \<noteq> 3 * sint (blockSize (defaults 9223371974719179008))"
  by code_simp

text \<open>
  C8 (as amended). For every block size \<open>b\<close> with \<open>0 < b < 2^62\<close> nanoseconds and
  every current time for which the start of the window in the spec's words is
  representable (every current time up to 9223371974719179007 is such), each time range
  that the planner stores in the map it returns starts before it ends.
\<close>

theorem C8_ranges_nonempty:
  assumes "0 < sint (blockSize cfg)" and "sint (blockSize cfg) < 2 ^ 62"
    and "representable (spec_start cfg)"
    and "planner cfg = Inr (m, ids)" and "m k = Some rs" and "r \<in> set rs"
  shows "Before (Start r) (End r)"
proof -
  have "rs = [window cfg]"
    using assms(4,5) by (rule planner_stored)
  with assms(6) have "r = window cfg" by simp
  moreover have "Before (Start (window cfg)) (End (window cfg))"
    using assms(1,2,3) by (intro window_ordered) (simp_all add: representable_def)
  ultimately show ?thesis by simp
qed

text \<open>
  With the default block size, \<open>-shards-count=2\<close> and the last current time that
  \<open>time.Unix\<close> does not wrap around, both shards hold the one window, and it starts before
  it ends.
\<close>

theorem C8_ranges_nonempty_witness:
  "0 < sint (blockSize ((defaults 9223371974719179007)\<lparr>shardsCount := 2\<rparr>))
   \<and> sint (blockSize ((defaults 9223371974719179007)\<lparr>shardsCount := 2\<rparr>)) < 2 ^ 62
   \<and> representable (spec_start ((defaults 9223371974719179007)\<lparr>shardsCount := 2\<rparr>))
   \<and> planner ((defaults 9223371974719179007)\<lparr>shardsCount := 2\<rparr>) =
       Inr ([0 \<mapsto> [window (defaults 9223371974719179007)],
             1 \<mapsto> [window (defaults 9223371974719179007)]], [0, 1])
   \<and> Before (Start (window (defaults 9223371974719179007)))
        (End (window (defaults 9223371974719179007)))"
proof -
  let ?cfg = "(defaults 9223371974719179007)\<lparr>shardsCount := 2\<rparr>"
  let ?w = "window (defaults 9223371974719179007)"
  let ?m = "[0 \<mapsto> [?w], 1 \<mapsto> [?w]] :: ShardTimeRanges"
  have b: "0 < sint (blockSize ?cfg)" "sint (blockSize ?cfg) < 2 ^ 62"
    by (simp_all add: defaults_def)
  have r: "representable (spec_start ?cfg)" by code_simp
  have w: "window ?cfg = ?w"
    by (simp add: window_def defaults_def)
  have p: "planner ?cfg = Inr (?m, [0, 1])"
    by (simp add: planner_def TrimSpace_Nil shardCountLoop.simps AddRange_NewRanges w
        word_sless_alt)
       (simp add: defaults_def TrimSpace_Nil shardCountLoop.simps AddRange_NewRanges word_sless_alt)
  have "?m 1 = Some [?w]" by simp
  from C8_ranges_nonempty [OF b r p this, of ?w]
  have "Before (Start ?w) (End ?w)" by simp
  with b r p show ?thesis by simp
qed

text \<open>
  C8 as stated, for every block size and current time that reach the planner, fails:
  main.go never checks either. With \<open>-block-size=-10m -shards-count=1\<close> at the Unix time
  0, shard 0 is mapped to a range that starts 30 minutes after it ends. With
  \<open>-block-size=0\<close> the range that is built starts where it ends, and with a block size of
  \<open>2^62\<close> nanoseconds it starts after it ends. With \<open>-block-size=500ms\<close> at the current
  time 9223371974719179008, \<open>time.Unix\<close> wraps around to the first second of \<open>time.Time\<close>,
  and the range starts half a second after it ends.
\<close>

theorem C8_ranges_nonempty_counterexample:
  "planner ((defaults 0)\<lparr>blockSize := - 600000000000, shardsCount := 1\<rparr>) =
     Inr ([0 \<mapsto> [\<lparr>Start = \<lparr>sec = 62135597400, nsec = 0\<rparr>,
                   End = \<lparr>sec = 62135595600, nsec = 0\<rparr>\<rparr>]], [0])
   \<and> \<not> Before \<lparr>sec = 62135597400, nsec = 0\<rparr> \<lparr>sec = 62135595600, nsec = 0\<rparr>
   \<and> \<not> Before (Start (window ((defaults 0)\<lparr>blockSize := 0\<rparr>)))
         (End (window ((defaults 0)\<lparr>blockSize := 0\<rparr>)))
   \<and> \<not> Before (Start (window ((defaults 0)\<lparr>blockSize := 4611686018427387904\<rparr>)))
         (End (window ((defaults 0)\<lparr>blockSize := 4611686018427387904\<rparr>)))
   \<and> \<not> Before (Start (window ((defaults 9223371974719179008)\<lparr>blockSize := 500000000\<rparr>)))
         (End (window ((defaults 9223371974719179008)\<lparr>blockSize := 500000000\<rparr>)))"
proof -
  let ?cfg = "(defaults 0)\<lparr>blockSize := - 600000000000, shardsCount := 1\<rparr>"
  have w: "window ?cfg = \<lparr>Start = \<lparr>sec = 62135597400, nsec = 0\<rparr>,
                   End = \<lparr>sec = 62135595600, nsec = 0\<rparr>\<rparr>"
    by code_simp
  have p: "planner ?cfg = Inr ([0 \<mapsto> [\<lparr>Start = \<lparr>sec = 62135597400, nsec = 0\<rparr>,
                   End = \<lparr>sec = 62135595600, nsec = 0\<rparr>\<rparr>]], [0])"
    by (simp add: planner_def w TrimSpace_Nil shardCountLoop.simps AddRange_NewRanges
        word_sless_alt)
       (simp add: defaults_def TrimSpace_Nil)
  have a: "\<not> Before \<lparr>sec = 62135597400, nsec = 0\<rparr> \<lparr>sec = 62135595600, nsec = 0\<rparr>"
    by code_simp
  have b: "\<not> Before (Start (window ((defaults 0)\<lparr>blockSize := 0\<rparr>)))
         (End (window ((defaults 0)\<lparr>blockSize := 0\<rparr>)))"
    by code_simp
  have c: "\<not> Before (Start (window ((defaults 0)\<lparr>blockSize := 4611686018427387904\<rparr>)))
         (End (window ((defaults 0)\<lparr>blockSize := 4611686018427387904\<rparr>)))"
    by code_simp
  have d: "\<not> Before (Start (window ((defaults 9223371974719179008)\<lparr>blockSize := 500000000\<rparr>)))
         (End (window ((defaults 9223371974719179008)\<lparr>blockSize := 500000000\<rparr>)))"
    by code_simp
  show ?thesis by (intro conjI p a b c d)
qed

section \<open>The claims about the shard list\<close>

text \<open>
  C3 (as amended). When a shard list is supplied (the flag is not empty after
  trimming), the planner splits it on commas and trims each token. At the first token
  that is empty after trimming it stops with the fatal log "Invalid shard list"; at the
  first other token for which \<open>strconv.Atoi\<close> returns an error it stops with the fatal log
  "could not parse shard". \<open>Atoi\<close> reads a decimal integer with an optional sign, so
  negative values are parsed too. When no token stops the run, the planner maps the shard
  id of every token, the parsed value's low 32 bits, to the single window, and to nothing
  else.
\<close>

theorem C3_shard_list:
  assumes "TrimSpace (shards cfg) \<noteq> []"
  shows "planner cfg =
     (case find badToken (Split (shards cfg) CHR '','') of
        Some t \<Rightarrow> Inl (FatalExit (fatalOf (shards cfg) t))
      | None \<Rightarrow>
          Inr ((\<lambda>k. if k \<in> set (map shardOf (Split (shards cfg) CHR '',''))
                    then Some [window cfg] else None),
               map shardOf (Split (shards cfg) CHR '','')))"
  unfolding planner_list [OF assms]
  by (simp split: option.splits)

text \<open>
  The list \<open>" 3 ,+4,-1"\<close> gives the shards 3, 4 and 4294967295; the list \<open>"1,,2"\<close> has an
  empty token, and in \<open>"1,2x"\<close> the token \<open>2x\<close> does not parse.
\<close>

theorem C3_shard_list_witness:
  "TrimSpace '' 3 ,+4,-1'' \<noteq> []
   \<and> planner ((defaults 0)\<lparr>shards := '' 3 ,+4,-1''\<rparr>) =
       Inr ((\<lambda>k. if k \<in> set [3, 4, 4294967295] then Some [window (defaults 0)] else None),
            [3, 4, 4294967295])
   \<and> TrimSpace ''1,,2'' \<noteq> []
   \<and> planner ((defaults 0)\<lparr>shards := ''1,,2''\<rparr>) = Inl (FatalExit (InvalidShardList ''1,,2''))
   \<and> TrimSpace ''1,2x'' \<noteq> []
   \<and> planner ((defaults 0)\<lparr>shards := ''1,2x''\<rparr>) = Inl (FatalExit (CouldNotParseShard ''2x''))"
proof -
  let ?a = "(defaults 0)\<lparr>shards := '' 3 ,+4,-1''\<rparr>"
  let ?b = "(defaults 0)\<lparr>shards := ''1,,2''\<rparr>"
  let ?c = "(defaults 0)\<lparr>shards := ''1,2x''\<rparr>"
  have sa: "shards ?a = '' 3 ,+4,-1''" by simp
  have ta: "TrimSpace '' 3 ,+4,-1'' \<noteq> []" by code_simp
  have fa: "find badToken (Split '' 3 ,+4,-1'' CHR '','') = None" by code_simp
  have ia: "map shardOf (Split '' 3 ,+4,-1'' CHR '','') = [3, 4, 4294967295]" by code_simp
  have wa: "window ?a = window (defaults 0)" by (simp add: window_def)
  have sb: "shards ?b = ''1,,2''" by simp
  have tb: "TrimSpace ''1,,2'' \<noteq> []" by code_simp
  have fb: "find badToken (Split ''1,,2'' CHR '','') = Some []" by code_simp
  have eb: "fatalOf ''1,,2'' [] = InvalidShardList ''1,,2''" by code_simp
  have sc: "shards ?c = ''1,2x''" by simp
  have tc: "TrimSpace ''1,2x'' \<noteq> []" by code_simp
  have fc: "find badToken (Split ''1,2x'' CHR '','') = Some ''2x''" by code_simp
  have ec: "fatalOf ''1,2x'' ''2x'' = CouldNotParseShard ''2x''" by code_simp
  have pa: "planner ?a =
       Inr ((\<lambda>k. if k \<in> set [3, 4, 4294967295] then Some [window (defaults 0)] else None),
            [3, 4, 4294967295])"
    using C3_shard_list [of ?a, unfolded sa, OF ta] by (simp only: fa ia wa option.case)
  have pb: "planner ?b = Inl (FatalExit (InvalidShardList ''1,,2''))"
    using C3_shard_list [of ?b, unfolded sb, OF tb] by (simp only: fb eb option.case)
  have pc: "planner ?c = Inl (FatalExit (CouldNotParseShard ''2x''))"
    using C3_shard_list [of ?c, unfolded sc, OF tc] by (simp only: fc ec option.case)
  show ?thesis by (intro conjI ta pa tb pb tc pc)
qed

text \<open>
  C3 as stated has every token parsed as a non-negative integer, with a fatal exit
  otherwise. The token \<open>-1\<close> is not a non-negative integer, and the planner does not
  stop: it returns a map, with the shard 4294967295 in it.
\<close>

theorem C3_shard_list_counterexample:
  "\<not> nonNegativeInteger (TrimSpace ''-1'')
   \<and> planner ((defaults 0)\<lparr>shards := ''-1''\<rparr>) =
       Inr ([4294967295 \<mapsto> [window (defaults 0)]], [4294967295])"
proof -
  have "\<not> nonNegativeInteger (TrimSpace ''-1'')" by code_simp
  then show ?thesis using planner_minus_one [of 0] by simp
qed

text \<open>
  C4. When a shard list is supplied and the planner returns a map, the map has exactly
  one entry for each distinct shard id parsed from the list (the ids are the \<open>uint32\<close>
  values, in \<open>shardsAll\<close> in the order of the list): its keys are those ids, there are as
  many entries as distinct ids, and every id is mapped to the single window. The shard
  list takes precedence: whatever \<open>shards-count\<close> is, the result is the same.
\<close>

theorem C4_distinct_shards:
  assumes "TrimSpace (shards cfg) \<noteq> []" and "planner cfg = Inr (m, ids)"
  shows "ids = map shardOf (Split (shards cfg) CHR '','')
       \<and> dom m = set ids
       \<and> card (dom m) = length (remdups ids)
       \<and> (\<forall>k \<in> set ids. m k = Some [window cfg])
       \<and> planner (cfg\<lparr>shardsCount := n\<rparr>) = Inr (m, ids)"
proof -
  have ids: "ids = map shardOf (Split (shards cfg) CHR '','')"
    and m: "m = (\<lambda>k. if k \<in> set ids then Some [window cfg] else None)"
    using planner_list [OF assms(1)] assms(2)
    by (auto split: option.splits)
  have d: "dom m = set ids"
    by (auto simp: m dom_def)
  have "planner (cfg\<lparr>shardsCount := n\<rparr>) = planner cfg"
    using assms(1) by (simp add: planner_def window_def)
  with ids d assms(2) show ?thesis
    by (simp add: m length_remdups_card_conv)
qed

text \<open>The spec's scenario: \<open>shards="5,5,7"\<close> gives exactly two entries, for 5 and for 7.\<close>

theorem C4_distinct_shards_witness:
  "TrimSpace ''5,5,7'' \<noteq> []
   \<and> planner ((defaults 0)\<lparr>shards := ''5,5,7''\<rparr>) =
       Inr ([5 \<mapsto> [window (defaults 0)], 7 \<mapsto> [window (defaults 0)]], [5, 5, 7])
   \<and> dom ([5 \<mapsto> [window (defaults 0)], 7 \<mapsto> [window (defaults 0)]] :: ShardTimeRanges) = {5, 7}
   \<and> card (dom ([5 \<mapsto> [window (defaults 0)], 7 \<mapsto> [window (defaults 0)]] :: ShardTimeRanges)) = 2
   \<and> planner ((defaults 0)\<lparr>shards := ''5,5,7'', shardsCount := 3\<rparr>) =
       Inr ([5 \<mapsto> [window (defaults 0)], 7 \<mapsto> [window (defaults 0)]], [5, 5, 7])"
proof -
  let ?cfg = "(defaults 0)\<lparr>shards := ''5,5,7''\<rparr>"
  let ?m = "[5 \<mapsto> [window (defaults 0)], 7 \<mapsto> [window (defaults 0)]] :: ShardTimeRanges"
  have t: "TrimSpace ''5,5,7'' \<noteq> []" by code_simp
  then have t': "TrimSpace (shards ?cfg) \<noteq> []" by simp
  have p: "planner ?cfg = Inr (?m, [5, 5, 7])" by (rule planner_5_5_7)
  have c: "?cfg\<lparr>shardsCount := 3\<rparr> = (defaults 0)\<lparr>shards := ''5,5,7'', shardsCount := 3\<rparr>"
    by simp
  have r: "length (remdups [5, 5, 7 :: uint32]) = 2" by simp
  from C4_distinct_shards [OF t' p, of 3]
  have "dom ?m = set [5, 5, 7]" and "card (dom ?m) = length (remdups [5, 5, 7 :: uint32])"
    and "planner (?cfg\<lparr>shardsCount := 3\<rparr>) = Inr (?m, [5, 5, 7])"
    by blast+
  with t p c r show ?thesis by simp
qed

section \<open>The claims about the shard count\<close>

text \<open>
  C5 (as amended). With no shard list and a shard count \<open>N\<close> with \<open>0 < N < 2^32\<close>, the
  planner returns a map with exactly \<open>N\<close> entries, one for each shard id below \<open>N\<close>, each
  mapped to the single window.
\<close>

theorem C5_shard_count:
  assumes "TrimSpace (shards cfg) = []"
    and "0 < sint (shardsCount cfg)" and "sint (shardsCount cfg) < 2 ^ 32"
  shows "\<exists>m ids. planner cfg = Inr (m, ids)
       \<and> card (dom m) = nat (sint (shardsCount cfg))
       \<and> dom m = {k. uint k < sint (shardsCount cfg)}
       \<and> (\<forall>k \<in> dom m. m k = Some [window cfg])"
proof -
  let ?n = "ucast (shardsCount cfg) :: uint32"
  let ?m = "\<lambda>k. if k < ?n then Some [window cfg] else None"
  have pos: "0 <s shardsCount cfg"
    using assms(2) by (simp add: word_sless_alt)
  have n: "uint ?n = sint (shardsCount cfg)"
    using assms(2,3) by (simp add: uint_ucast_shard)
  have p: "planner cfg = Inr (?m, map word_of_nat [0..<unat ?n])"
    using planner_count [OF assms(1) pos] by simp
  have d: "dom ?m = {k. k < ?n}"
    by (auto simp: dom_def)
  have c: "card (dom ?m) = nat (sint (shardsCount cfg))"
    unfolding d card_below by (metis n nat_uint_eq)
  have d': "dom ?m = {k. uint k < sint (shardsCount cfg)}"
    unfolding d using n by (simp add: word_less_def)
  have v: "\<forall>k \<in> dom ?m. ?m k = Some [window cfg]"
    by (auto simp: dom_def split: if_splits)
  from p c d' v show ?thesis by blast
qed

theorem C5_shard_count_witness:
  "TrimSpace (shards ((defaults 0)\<lparr>shardsCount := 3\<rparr>)) = []
   \<and> 0 < sint (shardsCount ((defaults 0)\<lparr>shardsCount := 3\<rparr>))
   \<and> sint (shardsCount ((defaults 0)\<lparr>shardsCount := 3\<rparr>)) < 2 ^ 32
   \<and> (\<exists>m ids. planner ((defaults 0)\<lparr>shardsCount := 3\<rparr>) = Inr (m, ids)
        \<and> card (dom m) = 3 \<and> dom m = {0, 1, 2}
        \<and> m 0 = Some [window (defaults 0)] \<and> m 1 = Some [window (defaults 0)]
        \<and> m 2 = Some [window (defaults 0)])"
proof -
  let ?cfg = "(defaults 0)\<lparr>shardsCount := 3\<rparr>"
  have h: "TrimSpace (shards ?cfg) = []" "0 < sint (shardsCount ?cfg)"
    "sint (shardsCount ?cfg) < 2 ^ 32"
    by (simp_all add: defaults_def TrimSpace_Nil)
  have w: "window ?cfg = window (defaults 0)" by (simp add: window_def defaults_def)
  have s: "{k :: uint32. uint k < 3} = {0, 1, 2}"
  proof -
    have "{k :: uint32. uint k < 3} = {k. k < 3}" by (simp add: word_less_def)
    also have "\<dots> = word_of_nat ` {0..<unat (3 :: uint32)}" by (rule below_eq_image)
    also have "{0..<unat (3 :: uint32)} = {0, 1, 2}" by auto
    finally show ?thesis by simp
  qed
  from C5_shard_count [OF h] obtain m ids where
    "planner ?cfg = Inr (m, ids)" "card (dom m) = 3" "dom m = {0, 1, 2}"
    "\<forall>k \<in> dom m. m k = Some [window (defaults 0)]"
    by (auto simp: w s)
  then show ?thesis using h by auto
qed

text \<open>
  C5 as stated, for every positive shard count, fails at \<open>-shards-count=4294967296\<close>: the
  loop bound \<open>uint32(shardsCount)\<close> is 0 and the map stays empty.
\<close>

theorem C5_shard_count_counterexample:
  "planner ((defaults 0)\<lparr>shardsCount := 4294967296\<rparr>) = Inr (Map.empty, [])
   \<and> card (dom (Map.empty :: ShardTimeRanges)) \<noteq> 4294967296"
  using planner_count_wraps [of 0] by simp

text \<open>
  C10. A shard id is the source integer modulo \<open>2^32\<close>. In a shard list, the id of a
  token that parses to \<open>v\<close> is \<open>v mod 2^32\<close>, and the keys of the map are those ids: the
  token \<open>-1\<close> is accepted and becomes the shard 4294967295. With a shard count, the keys
  are the ids below \<open>shardsCount mod 2^32\<close>: with \<open>-shards-count=4294967296\<close> the map is
  empty, and \<open>Bootstrap\<close> is still called, with the empty map.
\<close>

theorem C10_mod_2_32:
  "(TrimSpace (shards cfg) \<noteq> [] \<and> planner cfg = Inr (m, ids) \<longrightarrow>
      map uint ids =
        map (\<lambda>tok. sint (the (Atoi (TrimSpace tok))) mod 2 ^ 32) (Split (shards cfg) CHR '','')
      \<and> dom m = set ids)
   \<and> (TrimSpace (shards cfg) = [] \<and> 0 < sint (shardsCount cfg) \<longrightarrow>
        (\<exists>m ids. planner cfg = Inr (m, ids)
           \<and> dom m = {k. uint k < sint (shardsCount cfg) mod 2 ^ 32}
           \<and> card (dom m) = nat (sint (shardsCount cfg) mod 2 ^ 32)))
   \<and> planner ((defaults now)\<lparr>shards := ''-1''\<rparr>) =
       Inr ([4294967295 \<mapsto> [window (defaults now)]], [4294967295])
   \<and> planner ((defaults now)\<lparr>shardsCount := 4294967296\<rparr>) = Inr (Map.empty, [])
   \<and> bootstrapCalls (fst (main succeeding ((defaults now)\<lparr>shardsCount := 4294967296\<rparr>))) =
       [(''metrics'', Map.empty, False)]"
proof (intro conjI impI)
  assume h: "TrimSpace (shards cfg) \<noteq> [] \<and> planner cfg = Inr (m, ids)"
  then have ids: "ids = map shardOf (Split (shards cfg) CHR '','')"
    and m: "m = (\<lambda>k. if k \<in> set ids then Some [window cfg] else None)"
    using planner_list [of cfg] by (auto split: option.splits)
  show "map uint ids =
        map (\<lambda>tok. sint (the (Atoi (TrimSpace tok))) mod 2 ^ 32) (Split (shards cfg) CHR '','')"
    by (simp add: ids shardOf_def uint_ucast_shard)
  show "dom m = set ids"
    by (auto simp: m dom_def)
next
  assume h: "TrimSpace (shards cfg) = [] \<and> 0 < sint (shardsCount cfg)"
  let ?n = "ucast (shardsCount cfg) :: uint32"
  let ?m = "\<lambda>k. if k < ?n then Some [window cfg] else None"
  have pos: "0 <s shardsCount cfg"
    using h by (simp add: word_sless_alt)
  have p: "planner cfg = Inr (?m, map word_of_nat [0..<unat ?n])"
    using planner_count [of cfg] h pos by simp
  have d: "dom ?m = {k. k < ?n}"
    by (auto simp: dom_def)
  have d': "dom ?m = {k. uint k < sint (shardsCount cfg) mod 2 ^ 32}"
    unfolding d by (simp add: word_less_def uint_ucast_shard)
  have c: "card (dom ?m) = nat (sint (shardsCount cfg) mod 2 ^ 32)"
    unfolding d card_below by (metis uint_ucast_shard nat_uint_eq)
  from p d' c show "\<exists>m ids. planner cfg = Inr (m, ids)
           \<and> dom m = {k. uint k < sint (shardsCount cfg) mod 2 ^ 32}
           \<and> card (dom m) = nat (sint (shardsCount cfg) mod 2 ^ 32)"
    by blast
next
  show "planner ((defaults now)\<lparr>shards := ''-1''\<rparr>) =
       Inr ([4294967295 \<mapsto> [window (defaults now)]], [4294967295])"
    by (rule planner_minus_one)
  show "planner ((defaults now)\<lparr>shardsCount := 4294967296\<rparr>) = Inr (Map.empty, [])"
    by (rule planner_count_wraps)
  show "bootstrapCalls (fst (main succeeding ((defaults now)\<lparr>shardsCount := 4294967296\<rparr>))) =
       [(''metrics'', Map.empty, False)]"
    by (simp add: bootstrapCalls_main planner_count_wraps)
       (simp add: defaults_def succeeding_def)
qed

theorem C10_mod_2_32_witness:
  "TrimSpace (shards ((defaults 0)\<lparr>shards := ''-1''\<rparr>)) \<noteq> []
   \<and> planner ((defaults 0)\<lparr>shards := ''-1''\<rparr>) =
       Inr ([4294967295 \<mapsto> [window (defaults 0)]], [4294967295])
   \<and> map uint [4294967295 :: uint32] = [(- 1) mod 2 ^ 32]
   \<and> TrimSpace (shards ((defaults 0)\<lparr>shardsCount := 4294967297\<rparr>)) = []
   \<and> 0 < sint (shardsCount ((defaults 0)\<lparr>shardsCount := 4294967297\<rparr>))
   \<and> (\<exists>m ids. planner ((defaults 0)\<lparr>shardsCount := 4294967297\<rparr>) = Inr (m, ids)
        \<and> card (dom m) = 1)
   \<and> planner ((defaults 0)\<lparr>shardsCount := 4294967296\<rparr>) = Inr (Map.empty, [])
   \<and> bootstrapCalls (fst (main succeeding ((defaults 0)\<lparr>shardsCount := 4294967296\<rparr>))) =
       [(''metrics'', Map.empty, False)]"
proof -
  let ?a = "(defaults 0)\<lparr>shards := ''-1''\<rparr>"
  let ?b = "(defaults 0)\<lparr>shardsCount := 4294967297\<rparr>"
  let ?m = "[4294967295 \<mapsto> [window (defaults 0)]] :: ShardTimeRanges"
  have t: "TrimSpace ''-1'' \<noteq> []" by code_simp
  then have ta: "TrimSpace (shards ?a) \<noteq> []" by simp
  have pa: "planner ?a = Inr (?m, [4294967295])" by (rule planner_minus_one)
  have hb: "TrimSpace (shards ?b) = []" "0 < sint (shardsCount ?b)"
    by (simp_all add: defaults_def TrimSpace_Nil)
  have u: "map uint [4294967295 :: uint32] = [(- 1) mod 2 ^ 32]" by simp
  note A = C10_mod_2_32 [of ?a ?m "[4294967295]" 0]
  note B = C10_mod_2_32 [of ?b ?m "[4294967295]" 0]
  have c: "\<exists>m ids. planner ?b = Inr (m, ids) \<and> card (dom m) = 1"
    using B hb by auto
  have d: "planner ((defaults 0)\<lparr>shardsCount := 4294967296\<rparr>) = Inr (Map.empty, [])"
    and e: "bootstrapCalls (fst (main succeeding ((defaults 0)\<lparr>shardsCount := 4294967296\<rparr>))) =
       [(''metrics'', Map.empty, False)]"
    using A by blast+
  show ?thesis by (intro conjI ta pa u hb c d e)
qed

section \<open>The claims about the exits\<close>

text \<open>
  C6. When the shards flag is empty (or only white space) and \<open>shards-count\<close> is not
  positive, the run prints the usage, exits with status 1 and never calls \<open>Bootstrap\<close>,
  whatever the pipeline would do.
\<close>

theorem C6_no_selection:
  assumes "TrimSpace (shards cfg) = []" and "sint (shardsCount cfg) \<le> 0"
  shows "FlagUsage \<in> set (fst (main env cfg))
       \<and> snd (main env cfg) = 1
       \<and> bootstrapCalls (fst (main env cfg)) = []"
proof -
  have "\<not> 0 <s shardsCount cfg"
    using assms(2) by (simp add: word_sless_alt)
  with assms(1) have "planner cfg = Inl UsageExit"
    by (rule planner_usage)
  then show ?thesis
    by (simp add: main_def)
qed

text \<open>The spec's case: \<open>shards=""\<close> and \<open>shards-count=0\<close>.\<close>

theorem C6_no_selection_witness:
  "TrimSpace (shards ((defaults 0)\<lparr>shardsCount := 0\<rparr>)) = []
   \<and> sint (shardsCount ((defaults 0)\<lparr>shardsCount := 0\<rparr>)) \<le> 0
   \<and> FlagUsage \<in> set (fst (main succeeding ((defaults 0)\<lparr>shardsCount := 0\<rparr>)))
   \<and> snd (main succeeding ((defaults 0)\<lparr>shardsCount := 0\<rparr>)) = 1
   \<and> bootstrapCalls (fst (main succeeding ((defaults 0)\<lparr>shardsCount := 0\<rparr>))) = []"
proof -
  let ?cfg = "(defaults 0)\<lparr>shardsCount := 0\<rparr>"
  have h: "TrimSpace (shards ?cfg) = []" "sint (shardsCount ?cfg) \<le> 0"
    by (simp_all add: defaults_def TrimSpace_Nil)
  from C6_no_selection [OF h, of succeeding] h show ?thesis by blast
qed

text \<open>
  C7. With \<open>shards="1, 2, abc"\<close> the planner stops with the fatal log for the token
  \<open>abc\<close> and returns no map; the run exits with status 1 and never calls \<open>Bootstrap\<close>.
  When the path prefix and the namespace are not empty, the fatal log of \<open>abc\<close> is all
  that the run does.
\<close>

theorem C7_parse_failure:
  assumes "shards cfg = ''1, 2, abc''"
  shows "planner cfg = Inl (FatalExit (CouldNotParseShard ''abc''))
       \<and> snd (main env cfg) = 1
       \<and> bootstrapCalls (fst (main env cfg)) = []
       \<and> (pathPrefix cfg \<noteq> [] \<and> namespaceStr cfg \<noteq> [] \<longrightarrow>
            main env cfg = ([LogFatal (CouldNotParseShard ''abc'')], 1))"
  using planner_1_2_abc [OF assms] by (simp add: main_def)

theorem C7_parse_failure_witness:
  "shards ((defaults 0)\<lparr>shards := ''1, 2, abc''\<rparr>) = ''1, 2, abc''
   \<and> pathPrefix ((defaults 0)\<lparr>shards := ''1, 2, abc''\<rparr>) \<noteq> []
   \<and> namespaceStr ((defaults 0)\<lparr>shards := ''1, 2, abc''\<rparr>) \<noteq> []
   \<and> main succeeding ((defaults 0)\<lparr>shards := ''1, 2, abc''\<rparr>) =
       ([LogFatal (CouldNotParseShard ''abc'')], 1)
   \<and> bootstrapCalls (fst (main succeeding ((defaults 0)\<lparr>shards := ''1, 2, abc''\<rparr>))) = []"
proof -
  let ?cfg = "(defaults 0)\<lparr>shards := ''1, 2, abc''\<rparr>"
  have h: "shards ?cfg = ''1, 2, abc''" by simp
  have p: "pathPrefix ?cfg \<noteq> []" "namespaceStr ?cfg \<noteq> []"
    by (simp_all add: defaults_def)
  from C7_parse_failure [OF h, of succeeding] h p show ?thesis by blast
qed

text \<open>
  C9. A run calls \<open>Bootstrap\<close> at most once, and only with incremental saving off. Once
  the planner has returned its map, the run is one of four: an error from the
  construction of the commit log stage, or from the construction of the namespace
  metadata, ends the run with that error as its fatal log, status 1, and no call of
  \<open>Bootstrap\<close>; an error from \<open>Bootstrap\<close> ends the run with that error as its fatal log
  and status 1, after the one call; with no error the run makes the one call and returns
  with status 0. So a run that reaches the pipeline (both constructions without error)
  makes exactly one call, on the planner's map. A run that stops before (missing flags,
  or a planner that exits) makes no call and exits with status 1. The status is 0 or 1,
  and it is 0 only after exactly one call and when nothing has returned an error.
\<close>

theorem C9_single_attempt:
  "length (bootstrapCalls (fst (main env cfg))) \<le> 1
   \<and> list_all (\<lambda>c. \<not> snd (snd c)) (bootstrapCalls (fst (main env cfg)))
   \<and> (pathPrefix cfg \<noteq> [] \<and> namespaceStr cfg \<noteq> [] \<and> planner cfg = Inr (m, ids) \<longrightarrow>
        (\<forall>e. NewCommitLogBootstrapper env cfg = Some e \<longrightarrow>
           main env cfg =
             ([LogConfigured ids, LogInfo ''bootstrapping'', LogFatal (ErrorMessage e)], 1))
      \<and> (\<forall>e. NewCommitLogBootstrapper env cfg = None \<and> NewMetadata env cfg = Some e \<longrightarrow>
           main env cfg =
             ([LogConfigured ids, LogInfo ''bootstrapping'', LogFatal (ErrorMessage e)], 1))
      \<and> (\<forall>e. NewCommitLogBootstrapper env cfg = None \<and> NewMetadata env cfg = None
              \<and> Bootstrap env (namespaceStr cfg) m False = Some e \<longrightarrow>
           main env cfg =
             ([LogConfigured ids, LogInfo ''bootstrapping'',
               CallBootstrap (namespaceStr cfg) m False, LogFatal (FailedToBootstrap e)], 1))
      \<and> (NewCommitLogBootstrapper env cfg = None \<and> NewMetadata env cfg = None
              \<and> Bootstrap env (namespaceStr cfg) m False = None \<longrightarrow>
           main env cfg =
             ([LogConfigured ids, LogInfo ''bootstrapping'',
               CallBootstrap (namespaceStr cfg) m False, LogInfo ''bootstrapped''], 0))
      \<and> (NewCommitLogBootstrapper env cfg = None \<and> NewMetadata env cfg = None \<longrightarrow>
           bootstrapCalls (fst (main env cfg)) = [(namespaceStr cfg, m, False)]))
   \<and> (pathPrefix cfg = [] \<or> namespaceStr cfg = [] \<or> isl (planner cfg) \<longrightarrow>
        bootstrapCalls (fst (main env cfg)) = [] \<and> snd (main env cfg) = 1)
   \<and> (snd (main env cfg) = 0 \<longrightarrow>
        length (bootstrapCalls (fst (main env cfg))) = 1
        \<and> NewCommitLogBootstrapper env cfg = None \<and> NewMetadata env cfg = None
        \<and> (\<exists>m ids. planner cfg = Inr (m, ids)
              \<and> Bootstrap env (namespaceStr cfg) m False = None))
   \<and> (snd (main env cfg) = 0 \<or> snd (main env cfg) = 1)"
proof (intro conjI)
  show "length (bootstrapCalls (fst (main env cfg))) \<le> 1"
    by (simp add: bootstrapCalls_main split: sum.splits prod.splits)
  show "list_all (\<lambda>c. \<not> snd (snd c)) (bootstrapCalls (fst (main env cfg)))"
    by (simp add: bootstrapCalls_main split: sum.splits prod.splits)
  show "pathPrefix cfg \<noteq> [] \<and> namespaceStr cfg \<noteq> [] \<and> planner cfg = Inr (m, ids) \<longrightarrow>
        (\<forall>e. NewCommitLogBootstrapper env cfg = Some e \<longrightarrow>
           main env cfg =
             ([LogConfigured ids, LogInfo ''bootstrapping'', LogFatal (ErrorMessage e)], 1))
      \<and> (\<forall>e. NewCommitLogBootstrapper env cfg = None \<and> NewMetadata env cfg = Some e \<longrightarrow>
           main env cfg =
             ([LogConfigured ids, LogInfo ''bootstrapping'', LogFatal (ErrorMessage e)], 1))
      \<and> (\<forall>e. NewCommitLogBootstrapper env cfg = None \<and> NewMetadata env cfg = None
              \<and> Bootstrap env (namespaceStr cfg) m False = Some e \<longrightarrow>
           main env cfg =
             ([LogConfigured ids, LogInfo ''bootstrapping'',
               CallBootstrap (namespaceStr cfg) m False, LogFatal (FailedToBootstrap e)], 1))
      \<and> (NewCommitLogBootstrapper env cfg = None \<and> NewMetadata env cfg = None
              \<and> Bootstrap env (namespaceStr cfg) m False = None \<longrightarrow>
           main env cfg =
             ([LogConfigured ids, LogInfo ''bootstrapping'',
               CallBootstrap (namespaceStr cfg) m False, LogInfo ''bootstrapped''], 0))
      \<and> (NewCommitLogBootstrapper env cfg = None \<and> NewMetadata env cfg = None \<longrightarrow>
           bootstrapCalls (fst (main env cfg)) = [(namespaceStr cfg, m, False)])"
    by (simp add: main_def invoke_def Let_def split: option.splits)
  show "pathPrefix cfg = [] \<or> namespaceStr cfg = [] \<or> isl (planner cfg) \<longrightarrow>
        bootstrapCalls (fst (main env cfg)) = [] \<and> snd (main env cfg) = 1"
    by (auto simp: main_def isl_def split: exit.splits)
  show "snd (main env cfg) = 0 \<longrightarrow>
        length (bootstrapCalls (fst (main env cfg))) = 1
        \<and> NewCommitLogBootstrapper env cfg = None \<and> NewMetadata env cfg = None
        \<and> (\<exists>m ids. planner cfg = Inr (m, ids)
              \<and> Bootstrap env (namespaceStr cfg) m False = None)"
    by (auto simp: main_def invoke_def Let_def
        split: sum.splits exit.splits prod.splits option.splits if_splits)
  show "snd (main env cfg) = 0 \<or> snd (main env cfg) = 1"
    by (auto simp: main_def invoke_def Let_def
        split: sum.splits exit.splits prod.splits option.splits)
qed

text \<open>
  With one shard: a failing construction of the stage, a failing construction of the
  metadata, a failing \<open>Bootstrap\<close>, and a run without error; with no shard selected, a
  run that stops before the pipeline.
\<close>

theorem C9_single_attempt_witness:
  "pathPrefix ((defaults 0)\<lparr>shardsCount := 1\<rparr>) \<noteq> []
   \<and> namespaceStr ((defaults 0)\<lparr>shardsCount := 1\<rparr>) \<noteq> []
   \<and> planner ((defaults 0)\<lparr>shardsCount := 1\<rparr>) = Inr ([0 \<mapsto> [window (defaults 0)]], [0])
   \<and> main (succeeding\<lparr>NewCommitLogBootstrapper := \<lambda>c. Some ''invalid options''\<rparr>)
         ((defaults 0)\<lparr>shardsCount := 1\<rparr>) =
       ([LogConfigured [0], LogInfo ''bootstrapping'',
         LogFatal (ErrorMessage ''invalid options'')], 1)
   \<and> main (succeeding\<lparr>NewMetadata := \<lambda>c. Some ''invalid namespace''\<rparr>)
         ((defaults 0)\<lparr>shardsCount := 1\<rparr>) =
       ([LogConfigured [0], LogInfo ''bootstrapping'',
         LogFatal (ErrorMessage ''invalid namespace'')], 1)
   \<and> main (succeeding\<lparr>Bootstrap := \<lambda>ns m inc. Some ''read error''\<rparr>)
         ((defaults 0)\<lparr>shardsCount := 1\<rparr>) =
       ([LogConfigured [0], LogInfo ''bootstrapping'',
         CallBootstrap ''metrics'' [0 \<mapsto> [window (defaults 0)]] False,
         LogFatal (FailedToBootstrap ''read error'')], 1)
   \<and> main succeeding ((defaults 0)\<lparr>shardsCount := 1\<rparr>) =
       ([LogConfigured [0], LogInfo ''bootstrapping'',
         CallBootstrap ''metrics'' [0 \<mapsto> [window (defaults 0)]] False,
         LogInfo ''bootstrapped''], 0)
   \<and> isl (planner ((defaults 0)\<lparr>shardsCount := 0\<rparr>))
   \<and> bootstrapCalls (fst (main succeeding ((defaults 0)\<lparr>shardsCount := 0\<rparr>))) = []
   \<and> snd (main succeeding ((defaults 0)\<lparr>shardsCount := 0\<rparr>)) = 1"
proof -
  let ?cfg = "(defaults 0)\<lparr>shardsCount := 1\<rparr>"
  let ?off = "(defaults 0)\<lparr>shardsCount := 0\<rparr>"
  let ?m = "[0 \<mapsto> [window (defaults 0)]] :: ShardTimeRanges"
  have f: "pathPrefix ?cfg \<noteq> []" "namespaceStr ?cfg \<noteq> []" and n: "namespaceStr ?cfg = ''metrics''"
    by (simp_all add: defaults_def)
  have p: "planner ?cfg = Inr (?m, [0])" by (rule planner_one_shard)
  have a: "main (succeeding\<lparr>NewCommitLogBootstrapper := \<lambda>c. Some ''invalid options''\<rparr>) ?cfg =
       ([LogConfigured [0], LogInfo ''bootstrapping'',
         LogFatal (ErrorMessage ''invalid options'')], 1)"
    using C9_single_attempt
      [of "succeeding\<lparr>NewCommitLogBootstrapper := \<lambda>c. Some ''invalid options''\<rparr>" ?cfg ?m "[0]"]
      f p by simp
  have a': "main (succeeding\<lparr>NewMetadata := \<lambda>c. Some ''invalid namespace''\<rparr>) ?cfg =
       ([LogConfigured [0], LogInfo ''bootstrapping'',
         LogFatal (ErrorMessage ''invalid namespace'')], 1)"
    using C9_single_attempt
      [of "succeeding\<lparr>NewMetadata := \<lambda>c. Some ''invalid namespace''\<rparr>" ?cfg ?m "[0]"]
      f p by (simp add: succeeding_def)
  have b: "main (succeeding\<lparr>Bootstrap := \<lambda>ns m inc. Some ''read error''\<rparr>) ?cfg =
       ([LogConfigured [0], LogInfo ''bootstrapping'', CallBootstrap ''metrics'' ?m False,
         LogFatal (FailedToBootstrap ''read error'')], 1)"
    using C9_single_attempt
      [of "succeeding\<lparr>Bootstrap := \<lambda>ns m inc. Some ''read error''\<rparr>" ?cfg ?m "[0]"]
      f p by (simp add: succeeding_def n)
  have c: "main succeeding ?cfg =
       ([LogConfigured [0], LogInfo ''bootstrapping'', CallBootstrap ''metrics'' ?m False,
         LogInfo ''bootstrapped''], 0)"
    using C9_single_attempt [of succeeding ?cfg ?m "[0]"] f p
    by (simp add: succeeding_def n)
  have u: "planner ?off = Inl UsageExit"
    by (intro planner_usage) (simp_all add: defaults_def TrimSpace_Nil word_sless_alt)
  then have i: "isl (planner ?off)" by simp
  have d: "bootstrapCalls (fst (main succeeding ?off)) = []"
    and e: "snd (main succeeding ?off) = 1"
    using C9_single_attempt [of succeeding ?off ?m "[0]"] i by blast+
  show ?thesis by (intro conjI f p a a' b c i d e)
qed

end
